theory Spec2Isabelle
  imports Complex_Main "HOL-Library.Multiset" "HOL-Library.Sublist"
begin

section \<open>Common data\<close>

text \<open>
  The colour tags of \<open>BaseTool.create_output_area\<close>; every \<open>append_output\<close> call of the
  modelled code passes one of them.
\<close>

datatype tag = INFO | WARNING | ERROR | SUCCESS | HEADER

text \<open>
  The value of \<open>ports\<close> in \<open>PortScannerTool\<close>: a Python list (\<open>COMMON_PORTS\<close>, or the
  one-element list of the single mode) or a \<open>range(start, stop)\<close> object.
\<close>

datatype ports = ListPorts "int list" | RangePorts int int

fun elems :: "ports \<Rightarrow> int list" where
  "elems (ListPorts ps) = ps"
| "elems (RangePorts ports_start ports_stop) = [ports_start..ports_stop - 1]"

text \<open>
  What a worker thread is started with: the \<open>target\<close> and \<open>args\<close> of
  \<open>run_in_thread\<close>. The calls in the two tools modelled pass \<open>_scan_thread\<close> with
  \<open>(host, ports, timeout)\<close> (line 128 of the port scanner) and \<open>_scan_network\<close> with
  \<open>(network_range, timeout)\<close>.
\<close>

datatype job = ScanThread string ports real | ScanNetwork string real

section \<open>BaseTool\<close>

text \<open>
  The attributes of \<open>BaseTool\<close> that the modelled methods read or write.
  \<open>output_widget\<close> is \<open>None\<close> until \<open>create_output_area\<close> has run, afterwards it holds
  the lines inserted so far, each with its tag. \<open>worker_thread\<close> is \<open>None\<close> or the
  thread object of the last worker; thread objects are numbered in order of creation, and
  \<open>thread_objs\<close> keeps, for every thread the tool has started, its job and whether
  \<open>is_alive()\<close> holds for it now.
\<close>

record tool =
  output_widget :: "(string \<times> tag) list option"
  worker_thread :: "nat option"
  stop_event :: bool
  thread_objs :: "(job \<times> bool) list"

definition init_tool :: tool where
  "init_tool = \<lparr>output_widget = None, worker_thread = None, stop_event = False,
     thread_objs = []\<rparr>"

definition create_output_area :: "tool \<Rightarrow> tool" where
  "create_output_area s = s\<lparr>output_widget := Some []\<rparr>"

definition append_output :: "string \<Rightarrow> tag \<Rightarrow> tool \<Rightarrow> tool" where
  "append_output text tg s =
     (case output_widget s of
        None \<Rightarrow> s
      | Some ls \<Rightarrow> s\<lparr>output_widget := Some (ls @ [(text @ [CHR 0x0A], tg)])\<rparr>)"

definition clear_output :: "tool \<Rightarrow> tool" where
  "clear_output s =
     (case output_widget s of
        None \<Rightarrow> s
      | Some ls \<Rightarrow> s\<lparr>output_widget := Some []\<rparr>)"

definition print_header :: "string \<Rightarrow> tool \<Rightarrow> tool" where
  "print_header title s =
     append_output (replicate 60 CHR ''='') HEADER
       (append_output (''  '' @ title) HEADER
          (append_output (replicate 60 CHR ''='') HEADER s))"

definition is_alive :: "tool \<Rightarrow> nat \<Rightarrow> bool" where
  "is_alive s i = (i < length (thread_objs s) \<and> snd (thread_objs s ! i))"

definition is_running :: "tool \<Rightarrow> bool" where
  "is_running s = (case worker_thread s of None \<Rightarrow> False | Some i \<Rightarrow> is_alive s i)"

text \<open>
  \<open>run_in_thread\<close> returns its boolean together with the new state. Creating and
  starting the thread appends a live thread object.
\<close>

definition run_in_thread :: "job \<Rightarrow> tool \<Rightarrow> bool \<times> tool" where
  "run_in_thread target s =
     (if (case worker_thread s of None \<Rightarrow> False | Some i \<Rightarrow> is_alive s i)
      then (False, s)
      else (True, s\<lparr>stop_event := False,
                    worker_thread := Some (length (thread_objs s)),
                    thread_objs := thread_objs s @ [(target, True)]\<rparr>))"

definition stop :: "tool \<Rightarrow> tool" where
  "stop s = s\<lparr>stop_event := True\<rparr>"

text \<open>
  What can happen to a tool between two observations: the interface calls
  \<open>run_in_thread\<close> or \<open>stop\<close>, or a started thread returns from its target.
\<close>

datatype tool_event = RunInThread job | Stop | ThreadExit nat

fun tool_step :: "tool \<Rightarrow> tool_event \<Rightarrow> tool" where
  "tool_step s (RunInThread target) = snd (run_in_thread target s)"
| "tool_step s Stop = stop s"
| "tool_step s (ThreadExit i) =
     (if i < length (thread_objs s)
      then s\<lparr>thread_objs := (thread_objs s)[i := (fst (thread_objs s ! i), False)]\<rparr>
      else s)"

fun tool_run :: "tool \<Rightarrow> tool_event list \<Rightarrow> tool" where
  "tool_run s [] = s"
| "tool_run s (e # es) = tool_run (tool_step s e) es"

definition alive_count :: "tool \<Rightarrow> nat" where
  "alive_count s = length (filter snd (thread_objs s))"

section \<open>The network as the probes see it\<close>

text \<open>
  One connection attempt is: create a socket, set its timeout, call \<open>connect_ex\<close> and close
  the socket. Its outcome is the return code of \<open>connect_ex\<close> (0 on success, an error
  number otherwise, also when the attempt timed out), or an exception:
  \<open>SetupRaised\<close> when creating the socket or \<open>settimeout\<close> raised, before
  \<open>connect_ex\<close> was called; \<open>RaisedGaierror\<close> for \<open>socket.gaierror\<close>;
  \<open>RaisedSocketError\<close> for any other \<open>socket.error\<close>; \<open>RaisedOther\<close> for an exception
  that is no \<open>socket.error\<close> (an encoding error of the host name, for instance).
\<close>

datatype conn = SetupRaised | Returned int | RaisedGaierror | RaisedSocketError | RaisedOther

text \<open>
  The library calls the probes make, as functions of their arguments:
  \<open>connect_ex tr host port timeout\<close> is the outcome of one connection attempt,
  \<open>gethostbyaddr tr ip\<close> the name \<open>socket.gethostbyaddr(ip)[0]\<close> or \<open>None\<close> when the call
  raised, and \<open>ping tr ip timeout\<close> the standard output of the \<open>ping\<close> subprocess run with
  that timeout, or \<open>None\<close> when \<open>subprocess.run\<close> (or the conversion of the timeout to
  milliseconds) raised.
\<close>

record transport =
  connect_ex :: "string \<Rightarrow> int \<Rightarrow> real \<Rightarrow> conn"
  gethostbyaddr :: "string \<Rightarrow> string option"
  ping :: "string \<Rightarrow> real \<Rightarrow> string option"

text \<open>Exceptions that leave a probe function: they carry no data the model uses.\<close>

datatype exn = SetupError | OtherError

section \<open>PortScannerTool: probing one port\<close>

text \<open>The dictionary \<open>{'open': ..., 'error': ...}\<close> returned by \<open>_scan_port\<close>.\<close>

record scan_result =
  is_open :: bool
  error :: "string option"

definition scan_port :: "transport \<Rightarrow> string \<Rightarrow> int \<Rightarrow> real \<Rightarrow> exn + scan_result" where
  "scan_port tr host port timeout =
     (case connect_ex tr host port timeout of
        SetupRaised \<Rightarrow> Inl SetupError
      | Returned result_open \<Rightarrow> Inr \<lparr>is_open = (result_open = 0), error = None\<rparr>
      | RaisedGaierror \<Rightarrow> Inr \<lparr>is_open = False, error = Some ''Hostname resolution failed''\<rparr>
      | RaisedSocketError \<Rightarrow> Inr \<lparr>is_open = False, error = Some ''Could not connect''\<rparr>
      | RaisedOther \<Rightarrow> Inl OtherError)"

text \<open>
  The module-level \<open>scan_port_multi\<close>: its bare \<open>except\<close> catches whatever
  \<open>connect_ex\<close> raises; the socket is created and configured outside the \<open>try\<close>.
\<close>

definition scan_port_multi :: "transport \<Rightarrow> string \<Rightarrow> int \<Rightarrow> real \<Rightarrow> exn + (int \<times> bool)" where
  "scan_port_multi tr host port timeout =
     (case connect_ex tr host port timeout of
        SetupRaised \<Rightarrow> Inl SetupError
      | Returned result \<Rightarrow> Inr (port, result = 0)
      | RaisedGaierror \<Rightarrow> Inr (port, False)
      | RaisedSocketError \<Rightarrow> Inr (port, False)
      | RaisedOther \<Rightarrow> Inr (port, False))"

section \<open>NetworkDiscoveryTool: probing one host\<close>

text \<open>
  \<open>_ping_host\<close> appends to the shared list \<open>results\<close> and talks to the network. The model
  threads both through: \<open>results\<close> is the list, \<open>trace\<close> the calls made so far, in order.
  \<open>TryPort ip port timeout\<close> is one pass through the inner \<open>try\<close> for that port.
\<close>

datatype action = TryPort string int real | ReverseLookup string | IcmpPing string real

record probe =
  trace :: "action list"
  results :: "(string \<times> string option) list"

definition probe_ports :: "int list" where
  "probe_ports = [80, 443, 22, 445]"

text \<open>The reverse lookup with its \<open>except: hostname = None\<close>, and the append.\<close>

definition found :: "transport \<Rightarrow> string \<Rightarrow> probe \<Rightarrow> probe" where
  "found tr ip st =
     st\<lparr>trace := trace st @ [ReverseLookup ip],
        results := results st @ [(ip, gethostbyaddr tr ip)]\<rparr>"

text \<open>
  The \<open>for port in [80, 443, 22, 445]\<close> loop. The stop flag is shared with the interface
  thread, so what \<open>is_set()\<close> returns is an input: \<open>is_set i\<close> is the value read at the
  \<open>i\<close>-th pass (counted from 0). The boolean returned says whether the function returned
  from inside the loop (\<open>True\<close>) or the loop was left by exhaustion or \<open>break\<close>.
\<close>

fun port_loop ::
  "transport \<Rightarrow> (nat \<Rightarrow> bool) \<Rightarrow> string \<Rightarrow> real \<Rightarrow> nat \<Rightarrow> int list \<Rightarrow> probe \<Rightarrow> bool \<times> probe"
where
  "port_loop tr is_set ip timeout i [] st = (False, st)"
| "port_loop tr is_set ip timeout i (port # rest) st =
     (if is_set i then (False, st)
      else
        (case connect_ex tr ip port timeout of
           Returned result \<Rightarrow>
             if result = 0
             then (True, found tr ip (st\<lparr>trace := trace st @ [TryPort ip port timeout]\<rparr>))
             else port_loop tr is_set ip timeout (Suc i) rest
                    (st\<lparr>trace := trace st @ [TryPort ip port timeout]\<rparr>)
         | SetupRaised \<Rightarrow> port_loop tr is_set ip timeout (Suc i) rest
                    (st\<lparr>trace := trace st @ [TryPort ip port timeout]\<rparr>)
         | RaisedGaierror \<Rightarrow> port_loop tr is_set ip timeout (Suc i) rest
                    (st\<lparr>trace := trace st @ [TryPort ip port timeout]\<rparr>)
         | RaisedSocketError \<Rightarrow> port_loop tr is_set ip timeout (Suc i) rest
                    (st\<lparr>trace := trace st @ [TryPort ip port timeout]\<rparr>)
         | RaisedOther \<Rightarrow> port_loop tr is_set ip timeout (Suc i) rest
                    (st\<lparr>trace := trace st @ [TryPort ip port timeout]\<rparr>)))"

text \<open>Python's \<open>sub in s\<close> on strings.\<close>

fun contains :: "string \<Rightarrow> string \<Rightarrow> bool" where
  "contains sub [] = (sub = [])"
| "contains sub (c # cs) = (prefix sub (c # cs) \<or> contains sub cs)"

definition ping_host ::
  "transport \<Rightarrow> (nat \<Rightarrow> bool) \<Rightarrow> string \<Rightarrow> real \<Rightarrow> (string \<times> string option) list \<Rightarrow> probe"
where
  "ping_host tr is_set ip timeout results0 =
     (let (returned, st) =
            port_loop tr is_set ip timeout 0 probe_ports \<lparr>trace = [], results = results0\<rparr>
      in if returned then st
         else
           (case ping tr ip timeout of
              None \<Rightarrow> st\<lparr>trace := trace st @ [IcmpPing ip timeout]\<rparr>
            | Some stdout \<Rightarrow>
                if contains ''Reply from'' stdout
                then found tr ip (st\<lparr>trace := trace st @ [IcmpPing ip timeout]\<rparr>)
                else st\<lparr>trace := trace st @ [IcmpPing ip timeout]\<rparr>))"

text \<open>The stop flag as read by a loop while it is never set.\<close>

definition never_set :: "nat \<Rightarrow> bool" where
  "never_set i = False"

text \<open>A connection attempt to \<open>port\<close> succeeds: \<open>connect_ex\<close> returns 0.\<close>

definition opens :: "transport \<Rightarrow> string \<Rightarrow> real \<Rightarrow> int \<Rightarrow> bool" where
  "opens tr ip timeout port \<longleftrightarrow> connect_ex tr ip port timeout = Returned 0"

text \<open>
  What \<open>_ping_host\<close> finds out about a host when the stop flag stays clear: one of the four
  ports connects, or \<open>ping\<close> prints a reply.
\<close>

definition host_up :: "transport \<Rightarrow> real \<Rightarrow> string \<Rightarrow> bool" where
  "host_up tr timeout ip \<longleftrightarrow>
     (\<exists>port \<in> set probe_ports. opens tr ip timeout port)
     \<or> (case ping tr ip timeout of None \<Rightarrow> False | Some stdout \<Rightarrow> contains ''Reply from'' stdout)"

definition expected :: "transport \<Rightarrow> real \<Rightarrow> string list \<Rightarrow> (string \<times> string option) list" where
  "expected tr timeout ips =
     map (\<lambda>ip. (ip, gethostbyaddr tr ip)) (filter (host_up tr timeout) ips)"

section \<open>PortScannerTool: the scan\<close>

definition COMMON_PORTS :: "int list" where
  "COMMON_PORTS = [21, 22, 23, 25, 53, 80, 110, 143, 443, 445, 993, 995,
     1433, 3306, 3389, 5432, 5900, 6379, 8080, 8443, 8888, 27017]"

text \<open>
  The text fields of the interface hold strings; \<open>run_tool\<close> converts them with \<open>int\<close> and
  \<open>float\<close>. The model takes the outcome of each conversion: the number, or the
  \<open>ValueError\<close> raised.
\<close>

datatype 'a parsed = ValueError | Parsed 'a

text \<open>Decimal digits of a number, as \<open>str\<close> prints them.\<close>

fun str_nat :: "nat \<Rightarrow> string" where
  "str_nat n = (if n < 10 then [char_of (48 + n)]
                else str_nat (n div 10) @ [char_of (48 + n mod 10)])"

text \<open>
  The \<open>if/elif/else\<close> of \<open>run_tool\<close> that determines the ports: \<open>Inl\<close> carries the message
  written before the early \<open>return\<close>. The single mode reads the "From" field only.
\<close>

definition select_ports :: "string \<Rightarrow> int parsed \<Rightarrow> int parsed \<Rightarrow> string + ports" where
  "select_ports scan_type port_from_var port_to_var =
     (if scan_type = ''common'' then Inr (ListPorts COMMON_PORTS)
      else if scan_type = ''range'' then
        (case port_from_var of
           ValueError \<Rightarrow> Inl ''Invalid port range. Use 1-65535.''
         | Parsed port_from \<Rightarrow>
             (case port_to_var of
                ValueError \<Rightarrow> Inl ''Invalid port range. Use 1-65535.''
              | Parsed port_to \<Rightarrow>
                  if port_from < 1 \<or> port_to > 65535 \<or> port_from > port_to
                  then Inl ''Invalid port range. Use 1-65535.''
                  else Inr (RangePorts port_from (port_to + 1))))
      else
        (case port_from_var of
           ValueError \<Rightarrow> Inl ''Invalid port number. Use 1-65535.''
         | Parsed port \<Rightarrow>
             if port < 1 \<or> port > 65535
             then Inl ''Invalid port number. Use 1-65535.''
             else Inr (ListPorts [port])))"

text \<open>
  \<open>PortScannerTool.run_tool\<close>: the state the call leaves behind. \<open>host\<close> is the host
  field after \<open>strip()\<close>. The three early returns (lines 86, 102 and 111) are as in the
  source. On the remaining path the timeout field is converted (lines 113 to 116, with 1.0
  for a field that does not parse), the output is cleared and the header printed. The next
  statement, at line 120, does not parse (its nested format string lacks a closing brace),
  and lines 124 and 125 use the name \<open>tk\<close>, which this module never imports: as written,
  the call cannot reach \<open>run_in_thread\<close> at line 128 and ends with an exception. The model
  ends it at line 120: the converted timeout is never used, no thread is started, and the
  state is the one lines 118 and 119 leave.
\<close>

definition port_scanner_run_tool ::
  "string \<Rightarrow> string \<Rightarrow> int parsed \<Rightarrow> int parsed \<Rightarrow> real parsed \<Rightarrow> tool \<Rightarrow> tool"
where
  "port_scanner_run_tool host scan_type port_from_var port_to_var timeout_var s =
     (if host = [] then append_output ''Please enter a host or IP address.'' ERROR s
      else
        (case select_ports scan_type port_from_var port_to_var of
           Inl msg \<Rightarrow> append_output msg ERROR s
         | Inr ports \<Rightarrow> print_header (''Port Scan: '' @ host) (clear_output s)))"

text \<open>Whether the call of \<open>run_tool\<close> ends with an exception instead of returning.\<close>

definition port_scanner_run_tool_raises ::
  "string \<Rightarrow> string \<Rightarrow> int parsed \<Rightarrow> int parsed \<Rightarrow> bool"
where
  "port_scanner_run_tool_raises host scan_type port_from_var port_to_var \<longleftrightarrow>
     host \<noteq> []
     \<and> (case select_ports scan_type port_from_var port_to_var of
           Inl msg \<Rightarrow> False
         | Inr ports \<Rightarrow> True)"

text \<open>
  The loop of \<open>_scan_thread\<close> over the ports, with the list \<open>open_ports\<close> it builds.
  \<open>is_set i\<close> is the stop flag as read at the \<open>i\<close>-th pass. The loop ends by exhaustion, by
  \<open>break\<close> when the flag is set, or by an exception of \<open>_scan_port\<close>, which the enclosing
  \<open>except Exception\<close> reports. The banner grabbing (a second connection to an open port
  from a fixed list, whose answer is only displayed) and the displayed lines are not part
  of the model.
\<close>

datatype ending = Completed | Cancelled | Failed exn

fun scan_loop ::
  "transport \<Rightarrow> (nat \<Rightarrow> bool) \<Rightarrow> string \<Rightarrow> real \<Rightarrow> nat \<Rightarrow> int list \<Rightarrow> int list
     \<Rightarrow> int list \<times> ending"
where
  "scan_loop tr is_set host timeout i [] open_ports = (open_ports, Completed)"
| "scan_loop tr is_set host timeout i (port # rest) open_ports =
     (if is_set i then (open_ports, Cancelled)
      else
        (case scan_port tr host port timeout of
           Inl e \<Rightarrow> (open_ports, Failed e)
         | Inr result \<Rightarrow>
             scan_loop tr is_set host timeout (Suc i) rest
               (if is_open result then open_ports @ [port] else open_ports)))"

definition scan_thread ::
  "transport \<Rightarrow> (nat \<Rightarrow> bool) \<Rightarrow> string \<Rightarrow> ports \<Rightarrow> real \<Rightarrow> int list \<times> ending"
where
  "scan_thread tr is_set host ports timeout = scan_loop tr is_set host timeout 0 (elems ports) []"

section \<open>NetworkDiscoveryTool: the scan\<close>

text \<open>
  \<open>NetworkDiscoveryTool.run_tool\<close> (this module imports \<open>tk\<close>, so the call reaches
  \<open>run_in_thread\<close>; the button states are not part of the model). \<open>range_var\<close> is the
  range field after \<open>strip()\<close>;
  \<open>detect\<close> is what \<open>auto_detect_network\<close> does when it is called: \<open>Inr r\<close> when it sets
  the field (to \<open>r\<close>), \<open>Inl e\<close> when it fails with message \<open>e\<close>, writes an error line and
  leaves the field as it was.
\<close>

definition discovery_run_tool :: "string \<Rightarrow> string + string \<Rightarrow> real parsed \<Rightarrow> tool \<Rightarrow> tool" where
  "discovery_run_tool range_var detect timeout_var s =
     (let (network_range, s1) =
            (if range_var = [] \<or> range_var = ''auto'' then
               (case detect of
                  Inl e \<Rightarrow> (range_var, append_output (''Error auto-detecting network: '' @ e) ERROR s)
                | Inr r \<Rightarrow> (r, s))
             else (range_var, s))
      in if network_range = []
         then append_output ''Please specify a network range (e.g., 192.168.1.0/24).'' ERROR s1
         else
           let timeout = (case timeout_var of ValueError \<Rightarrow> 1 | Parsed t \<Rightarrow> t)
           in snd (run_in_thread (ScanNetwork network_range timeout)
                (append_output (replicate 60 CHR ''-'') INFO
                  (append_output ''Scanning network for active devices...'' INFO
                    (print_header (''Network Discovery: '' @ network_range) (clear_output s1))))))"

text \<open>
  \<open>_scan_network\<close> from "Scan hosts" on, for the addresses \<open>network.hosts()\<close> yields. It runs
  concurrently with the probe threads it starts and with the interface thread, so it is a
  machine: a state, and a step for each thing one of the threads does.

  A thread object is its number and the address it probes. \<open>threads\<close> is the local list of
  that name, \<open>alive\<close> the started threads that have not returned, \<open>hosts_found\<close> the shared
  result list, \<open>stop_flag\<close> the tool's stop event, \<open>pending\<close> the addresses the \<open>for\<close> loop
  has not reached. \<open>pc\<close> is where the scanning thread stands: at the head of the \<open>for\<close>
  loop, at the \<open>while\<close> that limits the threads, in the loop of \<open>join\<close>s, or past it.
\<close>

definition max_threads :: nat where
  "max_threads = 50"

datatype pc = LoopHead | Throttle | Joining | Finished

type_synonym thread = "nat \<times> string"

record scan =
  pc :: pc
  pending :: "string list"
  threads :: "thread list"
  alive :: "thread list"
  created :: nat
  hosts_found :: "(string \<times> string option) list"
  stop_flag :: bool
  scanned :: nat

definition scan_init :: "string list \<Rightarrow> scan" where
  "scan_init hosts = \<lparr>pc = LoopHead, pending = hosts, threads = [], alive = [], created = 0,
     hosts_found = [], stop_flag = False, scanned = 0\<rparr>"

text \<open>
  \<open>Cancel\<close>: the interface thread calls \<open>stop_scan\<close>.

  \<open>Exit n is_set\<close>: thread \<open>n\<close> runs \<open>_ping_host\<close> and returns; \<open>is_set\<close> are the values it
  read from the stop flag. The flag is never cleared while a scan runs, so a thread can
  have read \<open>True\<close> only if the flag is set when it returns. The one write of the thread
  to shared data is the append to \<open>hosts_found\<close>.

  \<open>Main stale\<close>: the scanning thread does its next step. At the loop head it leaves the
  loop when no address is left or the flag is set. In the \<open>while\<close> it either rebuilds
  \<open>threads\<close>, keeping the live threads and those in \<open>stale\<close> (threads that returned after
  the list comprehension had seen them alive), or starts a thread for the next address.
  A \<open>join\<close> returns once its thread is not alive.
\<close>

datatype event = Main "nat list" | Exit nat "nat \<Rightarrow> bool" | Cancel

fun scan_step :: "transport \<Rightarrow> real \<Rightarrow> scan \<Rightarrow> event \<Rightarrow> scan" where
  "scan_step tr timeout s Cancel = s\<lparr>stop_flag := True\<rparr>"
| "scan_step tr timeout s (Exit n is_set) =
     (case find (\<lambda>t. fst t = n) (alive s) of
        None \<Rightarrow> s
      | Some t \<Rightarrow>
          if list_ex is_set [0..<length probe_ports] \<and> \<not> stop_flag s then s
          else s\<lparr>alive := remove1 t (alive s),
                 hosts_found := results (ping_host tr is_set (snd t) timeout (hosts_found s))\<rparr>)"
| "scan_step tr timeout s (Main stale) =
     (case pc s of
        LoopHead \<Rightarrow>
          (case pending s of
             [] \<Rightarrow> s\<lparr>pc := Joining\<rparr>
           | ip # rest \<Rightarrow> if stop_flag s then s\<lparr>pc := Joining\<rparr> else s\<lparr>pc := Throttle\<rparr>)
      | Throttle \<Rightarrow>
          (case pending s of
             [] \<Rightarrow> s
           | ip # rest \<Rightarrow>
               if length (threads s) \<ge> max_threads
               then s\<lparr>threads := filter (\<lambda>t. t \<in> set (alive s) \<or> fst t \<in> set stale) (threads s)\<rparr>
               else s\<lparr>pc := LoopHead, pending := rest, scanned := scanned s + 1,
                      threads := threads s @ [(created s, ip)],
                      alive := alive s @ [(created s, ip)],
                      created := Suc (created s)\<rparr>)
      | Joining \<Rightarrow>
          (case threads s of
             [] \<Rightarrow> s\<lparr>pc := Finished\<rparr>
           | t # ts \<Rightarrow> if t \<in> set (alive s) then s else s\<lparr>threads := ts\<rparr>)
      | Finished \<Rightarrow> s)"

fun scan_run :: "transport \<Rightarrow> real \<Rightarrow> scan \<Rightarrow> event list \<Rightarrow> scan" where
  "scan_run tr timeout s [] = s"
| "scan_run tr timeout s (e # es) = scan_run tr timeout (scan_step tr timeout s e) es"

section \<open>Some networks\<close>

text \<open>Every connection succeeds, every address has a name, every ping is answered.\<close>

definition all_open :: transport where
  "all_open = \<lparr>connect_ex = (\<lambda>host port timeout. Returned 0),
     gethostbyaddr = (\<lambda>ip. Some ''gateway.lan''),
     ping = (\<lambda>ip timeout. Some ''Reply from 10.0.0.1: bytes=32 time<1ms TTL=64'')\<rparr>"

text \<open>Every connection succeeds, but reverse lookups and pings fail.\<close>

definition all_open_unnamed :: transport where
  "all_open_unnamed = \<lparr>connect_ex = (\<lambda>host port timeout. Returned 0),
     gethostbyaddr = (\<lambda>ip. None),
     ping = (\<lambda>ip timeout. None)\<rparr>"

text \<open>Every connection is refused (error 10061), no name, no ping reply.\<close>

definition refusing :: transport where
  "refusing = \<lparr>connect_ex = (\<lambda>host port timeout. Returned 10061),
     gethostbyaddr = (\<lambda>ip. None),
     ping = (\<lambda>ip timeout. Some ''Request timed out.'')\<rparr>"

text \<open>Every connection attempt times out (error 10035), no name, no ping reply.\<close>

definition timing_out :: transport where
  "timing_out = \<lparr>connect_ex = (\<lambda>host port timeout. Returned 10035),
     gethostbyaddr = (\<lambda>ip. None),
     ping = (\<lambda>ip timeout. Some ''Request timed out.'')\<rparr>"

text \<open>Only port 445 accepts connections; reverse lookups fail; no ping reply.\<close>

definition smb_only :: transport where
  "smb_only = \<lparr>connect_ex = (\<lambda>host port timeout. if port = 445 then Returned 0 else Returned 10061),
     gethostbyaddr = (\<lambda>ip. None),
     ping = (\<lambda>ip timeout. Some ''Request timed out.'')\<rparr>"

text \<open>Name resolution fails for every host; other calls fail too.\<close>

definition unresolvable :: transport where
  "unresolvable = \<lparr>connect_ex = (\<lambda>host port timeout. RaisedGaierror),
     gethostbyaddr = (\<lambda>ip. None),
     ping = (\<lambda>ip timeout. None)\<rparr>"

text \<open>Every connection attempt raises a socket error other than a resolution failure.\<close>

definition erroring :: transport where
  "erroring = \<lparr>connect_ex = (\<lambda>host port timeout. RaisedSocketError),
     gethostbyaddr = (\<lambda>ip. None),
     ping = (\<lambda>ip timeout. None)\<rparr>"

text \<open>The \<open>i\<close>-th address of the network 10.0.0.0/24, as \<open>str(ip)\<close> gives it.\<close>

definition host_ip :: "nat \<Rightarrow> string" where
  "host_ip i = ''10.0.0.'' @ str_nat i"

text \<open>The stop flag as read by a loop when it is set just before pass \<open>n\<close>.\<close>

definition set_from :: "nat \<Rightarrow> nat \<Rightarrow> bool" where
  "set_from n i \<longleftrightarrow> n \<le> i"

text \<open>No line of the output carries the tag \<open>ERROR\<close>.\<close>

definition no_errors :: "tool \<Rightarrow> bool" where
  "no_errors s \<longleftrightarrow>
     (case output_widget s of None \<Rightarrow> True | Some ls \<Rightarrow> ERROR \<notin> snd ` set ls)"

section \<open>Invariants\<close>

text \<open>The only thread that can be alive is the one \<open>worker_thread\<close> refers to.\<close>

definition single_worker :: "tool \<Rightarrow> bool" where
  "single_worker s \<longleftrightarrow>
     (\<forall>i < length (thread_objs s). snd (thread_objs s ! i) \<longrightarrow> worker_thread s = Some i)"

text \<open>
  The live probe threads all stand in \<open>threads\<close>, in the order they were started, and
  \<open>threads\<close> never holds more than \<open>max_threads\<close> entries; after the joins it is used up.
\<close>

definition pool_ok :: "scan \<Rightarrow> bool" where
  "pool_ok s \<longleftrightarrow>
     subseq (alive s) (threads s) \<and> length (threads s) \<le> max_threads
     \<and> (pc s = Finished \<longrightarrow> threads s = [])"

text \<open>
  Counting repetitions, the addresses with an entry in \<open>hosts_found\<close>, those being probed
  and those not yet reached are among the addresses submitted.
\<close>

definition accounted :: "string list \<Rightarrow> scan \<Rightarrow> bool" where
  "accounted hosts s \<longleftrightarrow>
     mset (map fst (hosts_found s)) + mset (map snd (alive s)) + mset (pending s)
       \<subseteq># mset hosts"

text \<open>
  While the stop flag is clear, the entries found so far, those the live threads will add
  and those the addresses still pending will give are together the entries of all hosts
  that are up; and the \<open>for\<close> loop is left only when no address is pending.
\<close>

definition tally :: "transport \<Rightarrow> real \<Rightarrow> string list \<Rightarrow> scan \<Rightarrow> bool" where
  "tally tr timeout hosts s \<longleftrightarrow>
     (\<not> stop_flag s \<longrightarrow>
        mset (hosts_found s) + mset (expected tr timeout (map snd (alive s)))
          + mset (expected tr timeout (pending s)) = mset (expected tr timeout hosts)
        \<and> (pc s = Joining \<or> pc s = Finished \<longrightarrow> pending s = []))"

section \<open>Properties\<close>

subsection \<open>One worker at a time\<close>

lemma single_worker_init: "single_worker init_tool"
  by (simp add: single_worker_def init_tool_def)

lemma single_worker_step: "single_worker s \<Longrightarrow> single_worker (tool_step s e)"
proof (cases e)
  case (RunInThread target)
  assume inv: "single_worker s"
  show ?thesis
  proof (cases "is_running s")
    case True
    with inv RunInThread show ?thesis
      by (simp add: run_in_thread_def is_running_def)
  next
    case False
    with inv have dead: "\<forall>i < length (thread_objs s). \<not> snd (thread_objs s ! i)"
      by (auto simp: single_worker_def is_running_def is_alive_def split: option.splits)
    with False RunInThread show ?thesis
      by (auto simp: run_in_thread_def is_running_def single_worker_def nth_append)
  qed
next
  case Stop
  assume "single_worker s"
  with Stop show ?thesis by (simp add: single_worker_def stop_def)
next
  case (ThreadExit i)
  assume "single_worker s"
  with ThreadExit show ?thesis
    by (auto simp: single_worker_def nth_list_update)
qed

lemma single_worker_run: "single_worker s \<Longrightarrow> single_worker (tool_run s es)"
  by (induction es arbitrary: s) (simp_all add: single_worker_step)

lemma filter_snd_le_one:
  assumes "\<And>i j. i < length xs \<Longrightarrow> j < length xs \<Longrightarrow> snd (xs ! i) \<Longrightarrow> snd (xs ! j) \<Longrightarrow> i = j"
  shows "length (filter snd xs) \<le> 1"
  using assms
proof (induction xs)
  case Nil
  then show ?case by simp
next
  case (Cons x xs)
  have IH: "length (filter snd xs) \<le> 1"
  proof (rule Cons.IH)
    fix i j
    assume "i < length xs" "j < length xs" "snd (xs ! i)" "snd (xs ! j)"
    with Cons.prems [of "Suc i" "Suc j"] show "i = j" by simp
  qed
  show ?case
  proof (cases "snd x")
    case False
    with IH show ?thesis by simp
  next
    case True
    have "filter snd xs = []"
    proof (rule ccontr)
      assume "filter snd xs \<noteq> []"
      then obtain y where "y \<in> set xs" "snd y"
        by (metis filter_False)
      then obtain k where "k < length xs" "snd (xs ! k)"
        by (auto simp: in_set_conv_nth)
      with Cons.prems [of 0 "Suc k"] True show False by simp
    qed
    with True show ?thesis by simp
  qed
qed

lemma single_worker_alive_count: "single_worker s \<Longrightarrow> alive_count s \<le> 1"
proof -
  assume inv: "single_worker s"
  have "length (filter snd (thread_objs s)) \<le> 1"
  proof (rule filter_snd_le_one)
    fix i j
    assume "i < length (thread_objs s)" "j < length (thread_objs s)"
      "snd (thread_objs s ! i)" "snd (thread_objs s ! j)"
    with inv have "worker_thread s = Some i" and "worker_thread s = Some j"
      unfolding single_worker_def by blast+
    then show "i = j" by simp
  qed
  then show ?thesis by (simp add: alive_count_def)
qed

lemma not_running_none_alive:
  assumes "single_worker s" and "\<not> is_running s"
  shows "filter snd (thread_objs s) = []"
proof -
  from assms have "\<forall>i < length (thread_objs s). \<not> snd (thread_objs s ! i)"
    by (auto simp: single_worker_def is_running_def is_alive_def split: option.splits)
  then have "\<forall>x \<in> set (thread_objs s). \<not> snd x"
    by (metis in_set_conv_nth)
  then show ?thesis by (simp add: filter_empty_conv)
qed

text \<open>
  C10. In every state a tool can reach from its constructor, at most one started thread is
  alive. While the current worker is alive, \<open>run_in_thread\<close> returns \<open>False\<close> and leaves
  the whole state, the stop flag included, as it was. Otherwise it returns \<open>True\<close>, has
  started exactly one new thread, which is the only live one and the new
  \<open>worker_thread\<close>, and the stop flag is clear whatever it was before, so a \<open>stop\<close> of an
  earlier run is not seen by the new one.
\<close>

theorem C10_single_worker:
  fixes es :: "tool_event list" and target :: job
  defines "s \<equiv> tool_run init_tool es"
  shows "alive_count s \<le> 1
    \<and> (is_running s \<longrightarrow> run_in_thread target s = (False, s))
    \<and> (\<not> is_running s \<longrightarrow>
         fst (run_in_thread target s)
         \<and> \<not> stop_event (snd (run_in_thread target s))
         \<and> thread_objs (snd (run_in_thread target s)) = thread_objs s @ [(target, True)]
         \<and> worker_thread (snd (run_in_thread target s)) = Some (length (thread_objs s))
         \<and> alive_count (snd (run_in_thread target s)) = 1)"
proof -
  have inv: "single_worker s"
    unfolding s_def by (rule single_worker_run [OF single_worker_init])
  have a: "alive_count s \<le> 1"
    using inv by (rule single_worker_alive_count)
  have b: "is_running s \<longrightarrow> run_in_thread target s = (False, s)"
    by (simp add: run_in_thread_def is_running_def)
  have c: "\<not> is_running s \<longrightarrow>
         fst (run_in_thread target s)
         \<and> \<not> stop_event (snd (run_in_thread target s))
         \<and> thread_objs (snd (run_in_thread target s)) = thread_objs s @ [(target, True)]
         \<and> worker_thread (snd (run_in_thread target s)) = Some (length (thread_objs s))
         \<and> alive_count (snd (run_in_thread target s)) = 1"
  proof
    assume nr: "\<not> is_running s"
    from inv nr have "filter snd (thread_objs s) = []"
      by (rule not_running_none_alive)
    with nr show "fst (run_in_thread target s)
         \<and> \<not> stop_event (snd (run_in_thread target s))
         \<and> thread_objs (snd (run_in_thread target s)) = thread_objs s @ [(target, True)]
         \<and> worker_thread (snd (run_in_thread target s)) = Some (length (thread_objs s))
         \<and> alive_count (snd (run_in_thread target s)) = 1"
      by (simp add: run_in_thread_def is_running_def alive_count_def)
  qed
  from a b c show ?thesis by blast
qed

theorem C10_single_worker_witness:
  "is_running (tool_run init_tool [RunInThread (ScanNetwork ''10.0.0.0/30'' 1), Stop])
   \<and> stop_event (tool_run init_tool [RunInThread (ScanNetwork ''10.0.0.0/30'' 1), Stop])
   \<and> run_in_thread (ScanNetwork ''10.0.1.0/30'' 2)
         (tool_run init_tool [RunInThread (ScanNetwork ''10.0.0.0/30'' 1), Stop])
       = (False, tool_run init_tool [RunInThread (ScanNetwork ''10.0.0.0/30'' 1), Stop])
   \<and> \<not> is_running
         (tool_run init_tool [RunInThread (ScanNetwork ''10.0.0.0/30'' 1), Stop, ThreadExit 0])
   \<and> stop_event
         (tool_run init_tool [RunInThread (ScanNetwork ''10.0.0.0/30'' 1), Stop, ThreadExit 0])
   \<and> \<not> stop_event (snd (run_in_thread (ScanNetwork ''10.0.1.0/30'' 2)
         (tool_run init_tool [RunInThread (ScanNetwork ''10.0.0.0/30'' 1), Stop, ThreadExit 0])))
   \<and> alive_count (snd (run_in_thread (ScanNetwork ''10.0.1.0/30'' 2)
         (tool_run init_tool [RunInThread (ScanNetwork ''10.0.0.0/30'' 1), Stop, ThreadExit 0])))
       = 1"
  using C10_single_worker [of "[RunInThread (ScanNetwork ''10.0.0.0/30'' 1), Stop]"
      "ScanNetwork ''10.0.1.0/30'' 2"]
    C10_single_worker [of "[RunInThread (ScanNetwork ''10.0.0.0/30'' 1), Stop, ThreadExit 0]"
      "ScanNetwork ''10.0.1.0/30'' 2"]
  by (simp add: init_tool_def run_in_thread_def stop_def is_running_def is_alive_def)

subsection \<open>Failure modes of a port probe\<close>

text \<open>
  C2, as the claim states it, fails: a refused connection and one that timed out both come
  back from \<open>connect_ex\<close> as a non-zero code, and \<open>_scan_port\<close> records the same result for
  both, with \<open>error\<close> left \<open>None\<close>.
\<close>

theorem C2_counterexample:
  "scan_port refusing ''localhost'' 9999 (1 / 2) = Inr \<lparr>is_open = False, error = None\<rparr>
   \<and> scan_port timing_out ''localhost'' 9999 (1 / 2) = Inr \<lparr>is_open = False, error = None\<rparr>"
  by (simp add: scan_port_def refusing_def timing_out_def)

text \<open>
  C2, amended. A failed attempt is recorded as not open. The error field is \<open>None\<close> when
  \<open>connect_ex\<close> returned a non-zero code (refusal and timeout alike), the text
  "Hostname resolution failed" when name resolution raised, and "Could not connect" when
  another socket error was raised; no other value occurs in a recorded result.
\<close>

theorem C2_failure_results:
  "(\<forall>code. connect_ex tr host port timeout = Returned code \<and> code \<noteq> 0 \<longrightarrow>
       scan_port tr host port timeout = Inr \<lparr>is_open = False, error = None\<rparr>)
   \<and> (connect_ex tr host port timeout = RaisedGaierror \<longrightarrow>
       scan_port tr host port timeout
         = Inr \<lparr>is_open = False, error = Some ''Hostname resolution failed''\<rparr>)
   \<and> (connect_ex tr host port timeout = RaisedSocketError \<longrightarrow>
       scan_port tr host port timeout
         = Inr \<lparr>is_open = False, error = Some ''Could not connect''\<rparr>)
   \<and> (\<forall>r. scan_port tr host port timeout = Inr r \<and> \<not> is_open r \<longrightarrow>
       error r = None \<or> error r = Some ''Hostname resolution failed''
       \<or> error r = Some ''Could not connect'')"
  by (cases "connect_ex tr host port timeout") (auto simp: scan_port_def)

theorem C2_failure_results_witness:
  "connect_ex refusing ''localhost'' 9999 (1 / 2) = Returned 10061
   \<and> scan_port refusing ''localhost'' 9999 (1 / 2) = Inr \<lparr>is_open = False, error = None\<rparr>
   \<and> connect_ex unresolvable ''no.such.host'' 80 1 = RaisedGaierror
   \<and> scan_port unresolvable ''no.such.host'' 80 1
       = Inr \<lparr>is_open = False, error = Some ''Hostname resolution failed''\<rparr>
   \<and> connect_ex erroring ''localhost'' 80 1 = RaisedSocketError
   \<and> scan_port erroring ''localhost'' 80 1
       = Inr \<lparr>is_open = False, error = Some ''Could not connect''\<rparr>"
  using C2_failure_results [of refusing "''localhost''" 9999 "1 / 2"]
    C2_failure_results [of unresolvable "''no.such.host''" 80 1]
    C2_failure_results [of erroring "''localhost''" 80 1]
  by (simp add: refusing_def unresolvable_def erroring_def)

subsection \<open>Probing one host\<close>

lemma port_loop_Cons:
  "port_loop tr is_set ip timeout i (port # rest) st =
     (if is_set i then (False, st)
      else if opens tr ip timeout port
      then (True, found tr ip (st\<lparr>trace := trace st @ [TryPort ip port timeout]\<rparr>))
      else port_loop tr is_set ip timeout (Suc i) rest
             (st\<lparr>trace := trace st @ [TryPort ip port timeout]\<rparr>))"
  by (cases "connect_ex tr ip port timeout") (simp_all add: opens_def)

declare port_loop.simps(2) [simp del]

lemma port_loop_results:
  "port_loop tr is_set ip timeout i ps st = (b, st') \<Longrightarrow>
     results st' = (if b then results st @ [(ip, gethostbyaddr tr ip)] else results st)"
proof (induction ps arbitrary: i st)
  case Nil
  then show ?case by auto
next
  case (Cons port rest)
  show ?case
  proof (cases "is_set i \<or> opens tr ip timeout port")
    case True
    with Cons.prems show ?thesis
      by (auto simp: port_loop_Cons found_def split: if_splits)
  next
    case False
    with Cons.prems have
      "port_loop tr is_set ip timeout (Suc i) rest
         (st\<lparr>trace := trace st @ [TryPort ip port timeout]\<rparr>) = (b, st')"
      by (simp add: port_loop_Cons)
    from Cons.IH [OF this] show ?thesis by simp
  qed
qed

lemma port_loop_success:
  "port_loop tr is_set ip timeout i ps st = (b, st') \<Longrightarrow>
   TryPort ip p timeout \<in> set (trace st') \<Longrightarrow>
   TryPort ip p timeout \<notin> set (trace st) \<Longrightarrow>
   opens tr ip timeout p \<Longrightarrow>
   b \<and> last (trace st') = ReverseLookup ip"
proof (induction ps arbitrary: i st)
  case Nil
  then show ?case by auto
next
  case (Cons port rest)
  show ?case
  proof (cases "is_set i \<or> opens tr ip timeout port")
    case True
    with Cons.prems show ?thesis
      by (auto simp: port_loop_Cons found_def split: if_splits)
  next
    case False
    with Cons.prems(1) have rec:
      "port_loop tr is_set ip timeout (Suc i) rest
         (st\<lparr>trace := trace st @ [TryPort ip port timeout]\<rparr>) = (b, st')"
      by (simp add: port_loop_Cons)
    from False Cons.prems(4) have "p \<noteq> port" by auto
    with Cons.prems(3) have
      "TryPort ip p timeout \<notin> set (trace (st\<lparr>trace := trace st @ [TryPort ip port timeout]\<rparr>))"
      by simp
    from Cons.IH [OF rec Cons.prems(2) this Cons.prems(4)] show ?thesis .
  qed
qed

lemma ping_host_results:
  "results (ping_host tr is_set ip timeout rs) = rs
   \<or> results (ping_host tr is_set ip timeout rs) = rs @ [(ip, gethostbyaddr tr ip)]"
proof -
  obtain b st' where pl:
    "port_loop tr is_set ip timeout 0 probe_ports \<lparr>trace = [], results = rs\<rparr> = (b, st')"
    by (cases "port_loop tr is_set ip timeout 0 probe_ports \<lparr>trace = [], results = rs\<rparr>")
  from port_loop_results [OF pl] pl show ?thesis
    by (auto simp: ping_host_def found_def split: option.splits)
qed

lemma ping_host_clear:
  assumes "\<not> list_ex is_set [0..<length probe_ports]"
  shows "results (ping_host tr is_set ip timeout rs) = rs @ expected tr timeout [ip]"
proof -
  from assms have "\<not> is_set 0" "\<not> is_set (Suc 0)" "\<not> is_set (Suc (Suc 0))"
    "\<not> is_set (Suc (Suc (Suc 0)))"
    by (simp_all add: probe_ports_def list_ex_iff)
  then show ?thesis
    by (simp add: ping_host_def probe_ports_def port_loop_Cons found_def expected_def
        host_up_def split: option.splits)
qed

text \<open>
  C5, as the claim states it, fails when the stop flag is set while a host is probed: the
  loop is left by \<open>break\<close> and the code goes on to the ping. Here the flag is set after the
  first attempt; ports 443, 22 and 445 are never tried (445 would have connected), the ping
  is run, and the host is not reported.
\<close>

theorem C5_counterexample:
  "trace (ping_host smb_only (set_from 1) ''10.0.0.5'' 1 [])
     = [TryPort ''10.0.0.5'' 80 1, IcmpPing ''10.0.0.5'' 1]
   \<and> results (ping_host smb_only (set_from 1) ''10.0.0.5'' 1 []) = []
   \<and> opens smb_only ''10.0.0.5'' 1 445"
  by (simp add: ping_host_def probe_ports_def port_loop_Cons found_def smb_only_def
      set_from_def opens_def)

text \<open>
  C5, amended. While the stop flag is read as clear, a host probe tries the ports 80, 443,
  22, 445 in this order with the given timeout; the first port that connects ends the
  probe with the reverse lookup and the host recorded, and no later port is tried; the
  ping is run only after all four ports have failed.
\<close>

theorem C5_port_order:
  assumes "\<forall>i < length probe_ports. \<not> is_set i"
  shows "trace (ping_host tr is_set ip timeout rs) =
    (if opens tr ip timeout 80 then [TryPort ip 80 timeout, ReverseLookup ip]
     else if opens tr ip timeout 443
       then [TryPort ip 80 timeout, TryPort ip 443 timeout, ReverseLookup ip]
     else if opens tr ip timeout 22
       then [TryPort ip 80 timeout, TryPort ip 443 timeout, TryPort ip 22 timeout,
             ReverseLookup ip]
     else if opens tr ip timeout 445
       then [TryPort ip 80 timeout, TryPort ip 443 timeout, TryPort ip 22 timeout,
             TryPort ip 445 timeout, ReverseLookup ip]
     else [TryPort ip 80 timeout, TryPort ip 443 timeout, TryPort ip 22 timeout,
           TryPort ip 445 timeout, IcmpPing ip timeout] @
          (case ping tr ip timeout of
             None \<Rightarrow> []
           | Some stdout \<Rightarrow> if contains ''Reply from'' stdout then [ReverseLookup ip] else []))
    \<and> ((\<exists>port \<in> set probe_ports. opens tr ip timeout port) \<longrightarrow>
         results (ping_host tr is_set ip timeout rs) = rs @ [(ip, gethostbyaddr tr ip)])"
proof -
  from assms have "\<not> is_set 0" "\<not> is_set (Suc 0)" "\<not> is_set (Suc (Suc 0))"
    "\<not> is_set (Suc (Suc (Suc 0)))"
    by (auto simp: probe_ports_def)
  then show ?thesis
    by (simp add: ping_host_def probe_ports_def port_loop_Cons found_def split: option.splits)
qed

theorem C5_port_order_witness:
  "\<not> never_set 0 \<and> \<not> never_set 1 \<and> \<not> never_set 2 \<and> \<not> never_set 3 \<and> length probe_ports = 4
   \<and> trace (ping_host smb_only never_set ''10.0.0.5'' 1 [])
       = [TryPort ''10.0.0.5'' 80 1, TryPort ''10.0.0.5'' 443 1, TryPort ''10.0.0.5'' 22 1,
          TryPort ''10.0.0.5'' 445 1, ReverseLookup ''10.0.0.5'']
   \<and> results (ping_host smb_only never_set ''10.0.0.5'' 1 []) = [(''10.0.0.5'', None)]
   \<and> trace (ping_host refusing never_set ''10.0.0.5'' 1 [])
       = [TryPort ''10.0.0.5'' 80 1, TryPort ''10.0.0.5'' 443 1, TryPort ''10.0.0.5'' 22 1,
          TryPort ''10.0.0.5'' 445 1, IcmpPing ''10.0.0.5'' 1]"
  using C5_port_order [of never_set smb_only "''10.0.0.5''" 1 "[]"]
    C5_port_order [of never_set refusing "''10.0.0.5''" 1 "[]"]
  by (simp add: never_set_def smb_only_def refusing_def opens_def probe_ports_def)

text \<open>
  C8. Whenever a connection attempt of a host probe succeeds, the probe ends with the
  reverse lookup and appends the host to the results with whatever the lookup gave; when
  the lookup failed the host is appended all the same, with \<open>None\<close> for the name.
\<close>

theorem C8_lookup_best_effort:
  assumes "TryPort ip p timeout \<in> set (trace (ping_host tr is_set ip timeout rs))"
    and "opens tr ip timeout p"
  shows "results (ping_host tr is_set ip timeout rs) = rs @ [(ip, gethostbyaddr tr ip)]
    \<and> last (trace (ping_host tr is_set ip timeout rs)) = ReverseLookup ip
    \<and> (gethostbyaddr tr ip = None \<longrightarrow>
         results (ping_host tr is_set ip timeout rs) = rs @ [(ip, None)])"
proof -
  obtain b st' where pl:
    "port_loop tr is_set ip timeout 0 probe_ports \<lparr>trace = [], results = rs\<rparr> = (b, st')"
    by (cases "port_loop tr is_set ip timeout 0 probe_ports \<lparr>trace = [], results = rs\<rparr>")
  have mem: "TryPort ip p timeout \<in> set (trace st')"
    using assms(1) pl
    by (cases b) (auto simp: ping_host_def found_def split: option.splits if_splits)
  from port_loop_success [OF pl mem _ assms(2)]
  have b: b and l: "last (trace st') = ReverseLookup ip" by simp_all
  from port_loop_results [OF pl] b have "results st' = rs @ [(ip, gethostbyaddr tr ip)]"
    by simp
  with b l pl show ?thesis by (simp add: ping_host_def)
qed

theorem C8_lookup_best_effort_witness:
  "TryPort ''10.0.0.5'' 445 1 \<in> set (trace (ping_host smb_only never_set ''10.0.0.5'' 1 []))
   \<and> opens smb_only ''10.0.0.5'' 1 445
   \<and> gethostbyaddr smb_only ''10.0.0.5'' = None
   \<and> results (ping_host smb_only never_set ''10.0.0.5'' 1 []) = [(''10.0.0.5'', None)]"
proof -
  have t: "TryPort ''10.0.0.5'' 445 1
      \<in> set (trace (ping_host smb_only never_set ''10.0.0.5'' 1 []))"
    by (simp add: ping_host_def probe_ports_def port_loop_Cons found_def smb_only_def
        never_set_def opens_def)
  have o: "opens smb_only ''10.0.0.5'' 1 445"
    by (simp add: smb_only_def opens_def)
  have n: "gethostbyaddr smb_only ''10.0.0.5'' = None"
    by (simp add: smb_only_def)
  from C8_lookup_best_effort [OF t o] t o n show ?thesis by simp
qed

subsection \<open>The discovery scan: invariants\<close>

lemma subseq_drop_head: "subseq xs (y # ys) \<Longrightarrow> y \<notin> set xs \<Longrightarrow> subseq xs ys"
  by (cases xs) (auto split: if_splits)

lemma subseq_remove1_left: "subseq xs ys \<Longrightarrow> subseq (remove1 x xs) ys"
proof -
  assume "subseq xs ys"
  have "subseq (remove1 x xs) xs"
    by (induction xs) auto
  then show ?thesis using \<open>subseq xs ys\<close> by (rule subseq_order.order_trans)
qed

lemma subseq_filter_keep:
  assumes "subseq xs ys" and "\<forall>x \<in> set xs. P x"
  shows "subseq xs (filter P ys)"
proof -
  from assms(1) have "subseq (filter P xs) (filter P ys)" by simp
  moreover from assms(2) have "filter P xs = xs" by (simp add: filter_True)
  ultimately show ?thesis by simp
qed

lemma pool_ok_init: "pool_ok (scan_init hosts)"
  by (simp add: pool_ok_def scan_init_def)

lemma pool_ok_step: "pool_ok s \<Longrightarrow> pool_ok (scan_step tr timeout s e)"
proof (cases e)
  case (Main stale)
  assume inv: "pool_ok s"
  show ?thesis
  proof (cases "pc s")
    case LoopHead
    with inv Main show ?thesis by (auto simp: pool_ok_def split: list.splits)
  next
    case Throttle
    show ?thesis
    proof (cases "pending s")
      case Nil
      with inv Main Throttle show ?thesis by simp
    next
      case (Cons ip rest)
      show ?thesis
      proof (cases "max_threads \<le> length (threads s)")
        case True
        from inv have "subseq (alive s)
            (filter (\<lambda>t. t \<in> set (alive s) \<or> fst t \<in> set stale) (threads s))"
          by (intro subseq_filter_keep) (auto simp: pool_ok_def)
        moreover from inv have "length (threads s) \<le> max_threads"
          by (simp add: pool_ok_def)
        then have "length (filter (\<lambda>t. t \<in> set (alive s) \<or> fst t \<in> set stale) (threads s))
            \<le> max_threads"
          by (rule le_trans [OF length_filter_le])
        ultimately show ?thesis using Main Throttle Cons True
          by (simp add: pool_ok_def)
      next
        case False
        with inv Main Throttle Cons show ?thesis
          by (auto simp: pool_ok_def intro: list_emb_append_mono)
      qed
    qed
  next
    case Joining
    show ?thesis
    proof (cases "threads s")
      case Nil
      with inv Main Joining show ?thesis by (simp add: pool_ok_def)
    next
      case (Cons t ts)
      with inv Main Joining show ?thesis
        by (auto simp: pool_ok_def dest: subseq_drop_head)
    qed
  next
    case Finished
    with inv Main show ?thesis by simp
  qed
next
  case (Exit n is_set)
  assume inv: "pool_ok s"
  with Exit show ?thesis
    by (auto simp: pool_ok_def subseq_remove1_left split: option.splits)
next
  case Cancel
  assume "pool_ok s"
  with Cancel show ?thesis by (simp add: pool_ok_def)
qed

lemma pool_ok_run: "pool_ok s \<Longrightarrow> pool_ok (scan_run tr timeout s es)"
  by (induction es arbitrary: s) (simp_all add: pool_ok_step)

lemma mset_map_remove1:
  "t \<in> set xs \<Longrightarrow> mset (map f xs) = add_mset (f t) (mset (map f (remove1 t xs)))"
  by (induction xs) auto

lemma find_SomeD: "find P xs = Some t \<Longrightarrow> t \<in> set xs \<and> P t"
  by (auto simp: find_Some_iff)

lemma accounted_init: "accounted hosts (scan_init hosts)"
  by (simp add: accounted_def scan_init_def)

lemma accounted_step: "accounted hosts s \<Longrightarrow> accounted hosts (scan_step tr timeout s e)"
proof (cases e)
  case (Main stale)
  assume "accounted hosts s"
  with Main show ?thesis
    by (auto simp: accounted_def split: pc.splits list.splits)
next
  case (Exit n is_set)
  assume inv: "accounted hosts s"
  show ?thesis
  proof (cases "find (\<lambda>t. fst t = n) (alive s)")
    case None
    with inv Exit show ?thesis by simp
  next
    case (Some t)
    then have mem: "t \<in> set (alive s)" by (simp add: find_SomeD)
    have split: "mset (map snd (alive s)) = add_mset (snd t) (mset (map snd (remove1 t (alive s))))"
      using mem by (rule mset_map_remove1)
    from ping_host_results [of tr is_set "snd t" timeout "hosts_found s"]
    have "mset (map fst (results (ping_host tr is_set (snd t) timeout (hosts_found s))))
        \<subseteq># add_mset (snd t) (mset (map fst (hosts_found s)))"
      by auto
    then have "mset (map fst (results (ping_host tr is_set (snd t) timeout (hosts_found s))))
        + mset (map snd (remove1 t (alive s))) + mset (pending s)
        \<subseteq># mset (map fst (hosts_found s)) + mset (map snd (alive s)) + mset (pending s)"
      unfolding split by (simp add: subset_mset.add_mono)
    moreover from inv have "mset (map fst (hosts_found s)) + mset (map snd (alive s))
        + mset (pending s) \<subseteq># mset hosts"
      by (simp add: accounted_def)
    ultimately have "mset (map fst (results (ping_host tr is_set (snd t) timeout (hosts_found s))))
        + mset (map snd (remove1 t (alive s))) + mset (pending s) \<subseteq># mset hosts"
      by (rule subset_mset.order_trans)
    with inv Exit Some show ?thesis
      by (simp add: accounted_def)
  qed
next
  case Cancel
  assume "accounted hosts s"
  with Cancel show ?thesis by (simp add: accounted_def)
qed

lemma accounted_run: "accounted hosts s \<Longrightarrow> accounted hosts (scan_run tr timeout s es)"
  by (induction es arbitrary: s) (simp_all add: accounted_step)

lemma expected_Nil: "expected tr timeout [] = []"
  by (simp add: expected_def)

lemma expected_append:
  "expected tr timeout (xs @ ys) = expected tr timeout xs @ expected tr timeout ys"
  by (simp add: expected_def)

lemma expected_Cons:
  "expected tr timeout (x # xs) = expected tr timeout [x] @ expected tr timeout xs"
  by (simp add: expected_def)

lemma mset_expected_remove1:
  "t \<in> set xs \<Longrightarrow>
   mset (expected tr timeout (map snd xs)) =
     mset (expected tr timeout [snd t]) + mset (expected tr timeout (map snd (remove1 t xs)))"
proof (induction xs)
  case Nil
  then show ?case by simp
next
  case (Cons x xs)
  show ?case
  proof (cases "t = x")
    case True
    then show ?thesis by (simp add: expected_Cons [of _ _ "snd x" "map snd xs"])
  next
    case False
    with Cons have "mset (expected tr timeout (map snd xs)) =
       mset (expected tr timeout [snd t]) + mset (expected tr timeout (map snd (remove1 t xs)))"
      by simp
    with False show ?thesis
      by (simp add: expected_Cons [of _ _ "snd x" "map snd xs"]
          expected_Cons [of _ _ "snd x" "map snd (remove1 t xs)"])
  qed
qed

lemma tally_init: "tally tr timeout hosts (scan_init hosts)"
  by (simp add: tally_def scan_init_def expected_def)

lemma tally_step:
  "tally tr timeout hosts s \<Longrightarrow> tally tr timeout hosts (scan_step tr timeout s e)"
proof (cases e)
  case (Main stale)
  assume inv: "tally tr timeout hosts s"
  show ?thesis
  proof (cases "pc s")
    case LoopHead
    with inv Main show ?thesis by (auto simp: tally_def split: list.splits)
  next
    case Throttle
    show ?thesis
    proof (cases "pending s")
      case Nil
      with inv Main Throttle show ?thesis by simp
    next
      case (Cons ip rest)
      with inv Main Throttle show ?thesis
        by (auto simp: tally_def expected_append expected_Cons [of _ _ ip rest] ac_simps)
    qed
  next
    case Joining
    with inv Main show ?thesis by (auto simp: tally_def split: list.splits)
  next
    case Finished
    with inv Main show ?thesis by simp
  qed
next
  case (Exit n is_set)
  assume inv: "tally tr timeout hosts s"
  show ?thesis
  proof (cases "find (\<lambda>t. fst t = n) (alive s)")
    case None
    with inv Exit show ?thesis by simp
  next
    case (Some t)
    then have mem: "t \<in> set (alive s)" by (simp add: find_SomeD)
    show ?thesis
    proof (cases "stop_flag s")
      case True
      with Exit Some show ?thesis by (simp add: tally_def)
    next
      case False
      show ?thesis
      proof (cases "list_ex is_set [0..<length probe_ports]")
        case True
        with False inv Exit Some show ?thesis by simp
      next
        case clear: False
        then have "results (ping_host tr is_set (snd t) timeout (hosts_found s)) =
            hosts_found s @ expected tr timeout [snd t]"
          by (rule ping_host_clear)
        with False clear inv Exit Some mset_expected_remove1 [OF mem, of tr timeout]
        show ?thesis by (auto simp: tally_def ac_simps)
      qed
    qed
  qed
next
  case Cancel
  then show ?thesis by (simp add: tally_def)
qed

lemma tally_run:
  "tally tr timeout hosts s \<Longrightarrow> tally tr timeout hosts (scan_run tr timeout s es)"
  by (induction es arbitrary: s) (simp_all add: tally_step)

lemma finished_results:
  assumes "pc (scan_run tr timeout (scan_init hosts) es) = Finished"
    and "\<not> stop_flag (scan_run tr timeout (scan_init hosts) es)"
  shows "mset (hosts_found (scan_run tr timeout (scan_init hosts) es)) =
     mset (expected tr timeout hosts)"
proof -
  let ?s = "scan_run tr timeout (scan_init hosts) es"
  have "pool_ok ?s" by (rule pool_ok_run [OF pool_ok_init])
  with assms(1) have "alive ?s = []" by (auto simp: pool_ok_def)
  moreover have "tally tr timeout hosts ?s" by (rule tally_run [OF tally_init])
  ultimately show ?thesis using assms by (auto simp: tally_def expected_Nil)
qed

lemma scan_run_append:
  "scan_run tr timeout s (es1 @ es2) = scan_run tr timeout (scan_run tr timeout s es1) es2"
  by (induction es1 arbitrary: s) simp_all

lemma spawn_many:
  "pc s = LoopHead \<Longrightarrow> \<not> stop_flag s \<Longrightarrow> pending s = ips @ rest \<Longrightarrow>
   length (threads s) + length ips \<le> max_threads \<Longrightarrow>
   pc (scan_run tr timeout s (concat (replicate (length ips) [Main stale, Main stale]))) = LoopHead
   \<and> \<not> stop_flag
         (scan_run tr timeout s (concat (replicate (length ips) [Main stale, Main stale])))
   \<and> pending (scan_run tr timeout s (concat (replicate (length ips) [Main stale, Main stale])))
       = rest
   \<and> length (alive
         (scan_run tr timeout s (concat (replicate (length ips) [Main stale, Main stale]))))
       = length (alive s) + length ips"
proof (induction ips arbitrary: s)
  case Nil
  then show ?case by simp
next
  case (Cons ip ips)
  let ?mid = "scan_step tr timeout (scan_step tr timeout s (Main stale)) (Main stale)"
  from Cons.prems have mid: "pc ?mid = LoopHead" "\<not> stop_flag ?mid"
    "pending ?mid = ips @ rest" "length (threads ?mid) + length ips \<le> max_threads"
    and a1: "length (alive ?mid) = Suc (length (alive s))"
    by simp_all
  from Cons.IH [OF mid] a1 show ?case by simp
qed

lemma dispatch_one:
  assumes "pc s = LoopHead" and "alive s = []" and "\<not> stop_flag s" and "pending s = ip # rest"
  shows "\<exists>es. Cancel \<notin> set es
     \<and> pc (scan_run tr timeout s es) = LoopHead
     \<and> alive (scan_run tr timeout s es) = []
     \<and> \<not> stop_flag (scan_run tr timeout s es)
     \<and> pending (scan_run tr timeout s es) = rest"
proof (cases "max_threads \<le> length (threads s)")
  case True
  let ?es = "[Main [], Main [], Main [], Exit (created s) never_set]"
  from assms True have "pc (scan_run tr timeout s ?es) = LoopHead
     \<and> alive (scan_run tr timeout s ?es) = []
     \<and> \<not> stop_flag (scan_run tr timeout s ?es)
     \<and> pending (scan_run tr timeout s ?es) = rest"
    by (simp add: never_set_def max_threads_def list_ex_iff)
  moreover have "Cancel \<notin> set ?es" by simp
  ultimately show ?thesis by blast
next
  case False
  let ?es = "[Main [], Main [], Exit (created s) never_set]"
  from assms False have "pc (scan_run tr timeout s ?es) = LoopHead
     \<and> alive (scan_run tr timeout s ?es) = []
     \<and> \<not> stop_flag (scan_run tr timeout s ?es)
     \<and> pending (scan_run tr timeout s ?es) = rest"
    by (simp add: never_set_def list_ex_iff)
  moreover have "Cancel \<notin> set ?es" by simp
  ultimately show ?thesis by blast
qed

lemma dispatch_all:
  "pc s = LoopHead \<Longrightarrow> alive s = [] \<Longrightarrow> \<not> stop_flag s \<Longrightarrow> pending s = ips \<Longrightarrow>
   \<exists>es. Cancel \<notin> set es
     \<and> pc (scan_run tr timeout s es) = LoopHead
     \<and> alive (scan_run tr timeout s es) = []
     \<and> \<not> stop_flag (scan_run tr timeout s es)
     \<and> pending (scan_run tr timeout s es) = []"
proof (induction ips arbitrary: s)
  case Nil
  then have "Cancel \<notin> set []
     \<and> pc (scan_run tr timeout s []) = LoopHead
     \<and> alive (scan_run tr timeout s []) = []
     \<and> \<not> stop_flag (scan_run tr timeout s [])
     \<and> pending (scan_run tr timeout s []) = []"
    by simp
  then show ?case by blast
next
  case (Cons ip rest)
  from dispatch_one [OF Cons.prems, of tr timeout]
  obtain es1 where es1: "Cancel \<notin> set es1"
    "pc (scan_run tr timeout s es1) = LoopHead"
    "alive (scan_run tr timeout s es1) = []"
    "\<not> stop_flag (scan_run tr timeout s es1)"
    "pending (scan_run tr timeout s es1) = rest"
    by blast
  from Cons.IH [OF es1(2-5)]
  obtain es2 where es2: "Cancel \<notin> set es2"
    "pc (scan_run tr timeout (scan_run tr timeout s es1) es2) = LoopHead"
    "alive (scan_run tr timeout (scan_run tr timeout s es1) es2) = []"
    "\<not> stop_flag (scan_run tr timeout (scan_run tr timeout s es1) es2)"
    "pending (scan_run tr timeout (scan_run tr timeout s es1) es2) = []"
    by blast
  from es1(1) es2 have "Cancel \<notin> set (es1 @ es2)
     \<and> pc (scan_run tr timeout s (es1 @ es2)) = LoopHead
     \<and> alive (scan_run tr timeout s (es1 @ es2)) = []
     \<and> \<not> stop_flag (scan_run tr timeout s (es1 @ es2))
     \<and> pending (scan_run tr timeout s (es1 @ es2)) = []"
    by (simp add: scan_run_append)
  then show ?case by blast
qed

lemma join_all:
  "pc s = Joining \<Longrightarrow> alive s = [] \<Longrightarrow> \<not> stop_flag s \<Longrightarrow> threads s = ts \<Longrightarrow>
   \<exists>es. Cancel \<notin> set es
     \<and> pc (scan_run tr timeout s es) = Finished
     \<and> \<not> stop_flag (scan_run tr timeout s es)"
proof (induction ts arbitrary: s)
  case Nil
  then have "Cancel \<notin> set [Main []]
     \<and> pc (scan_run tr timeout s [Main []]) = Finished
     \<and> \<not> stop_flag (scan_run tr timeout s [Main []])"
    by simp
  then show ?case by blast
next
  case (Cons t ts)
  let ?s1 = "scan_step tr timeout s (Main [])"
  from Cons.prems have s1: "pc ?s1 = Joining" "alive ?s1 = []" "\<not> stop_flag ?s1" "threads ?s1 = ts"
    by simp_all
  from Cons.IH [OF s1]
  obtain es where es: "Cancel \<notin> set es"
    "pc (scan_run tr timeout ?s1 es) = Finished"
    "\<not> stop_flag (scan_run tr timeout ?s1 es)"
    by blast
  then have "Cancel \<notin> set (Main [] # es)
     \<and> pc (scan_run tr timeout s (Main [] # es)) = Finished
     \<and> \<not> stop_flag (scan_run tr timeout s (Main [] # es))"
    by simp
  then show ?case by blast
qed

lemma scan_can_finish:
  "\<exists>es. Cancel \<notin> set es
     \<and> pc (scan_run tr timeout (scan_init hosts) es) = Finished
     \<and> \<not> stop_flag (scan_run tr timeout (scan_init hosts) es)"
proof -
  have "pc (scan_init hosts) = LoopHead" "alive (scan_init hosts) = []"
    "\<not> stop_flag (scan_init hosts)" "pending (scan_init hosts) = hosts"
    by (simp_all add: scan_init_def)
  from dispatch_all [OF this, of tr timeout]
  obtain es1 where es1: "Cancel \<notin> set es1"
    "pc (scan_run tr timeout (scan_init hosts) es1) = LoopHead"
    "alive (scan_run tr timeout (scan_init hosts) es1) = []"
    "\<not> stop_flag (scan_run tr timeout (scan_init hosts) es1)"
    "pending (scan_run tr timeout (scan_init hosts) es1) = []"
    by blast
  let ?s1 = "scan_run tr timeout (scan_init hosts) es1"
  let ?s2 = "scan_step tr timeout ?s1 (Main [])"
  from es1 have s2: "pc ?s2 = Joining" "alive ?s2 = []" "\<not> stop_flag ?s2"
    by simp_all
  from join_all [OF s2 refl, of tr timeout]
  obtain es2 where es2: "Cancel \<notin> set es2"
    "pc (scan_run tr timeout ?s2 es2) = Finished"
    "\<not> stop_flag (scan_run tr timeout ?s2 es2)"
    by blast
  have "scan_run tr timeout (scan_init hosts) (es1 @ Main [] # es2) = scan_run tr timeout ?s2 es2"
    by (simp add: scan_run_append)
  with es1(1) es2 have "Cancel \<notin> set (es1 @ Main [] # es2)
     \<and> pc (scan_run tr timeout (scan_init hosts) (es1 @ Main [] # es2)) = Finished
     \<and> \<not> stop_flag (scan_run tr timeout (scan_init hosts) (es1 @ Main [] # es2))"
    by simp
  then show ?thesis by blast
qed

lemma scan_loop_clear:
  assumes "\<forall>i. \<not> is_set i"
    and "\<forall>p \<in> set ps. connect_ex tr host p timeout \<noteq> SetupRaised
           \<and> connect_ex tr host p timeout \<noteq> RaisedOther"
  shows "scan_loop tr is_set host timeout i ps acc =
     (acc @ filter (opens tr host timeout) ps, Completed)"
  using assms(2)
proof (induction ps arbitrary: i acc)
  case Nil
  then show ?case by simp
next
  case (Cons p ps)
  then have IH: "\<And>i acc. scan_loop tr is_set host timeout i ps acc =
     (acc @ filter (opens tr host timeout) ps, Completed)"
    by simp
  from assms(1) have clear: "\<not> is_set i" by simp
  show ?case
  proof (cases "connect_ex tr host p timeout")
    case SetupRaised
    with Cons.prems show ?thesis by simp
  next
    case (Returned code)
    then have "opens tr host timeout p \<longleftrightarrow> code = 0" by (simp add: opens_def)
    with Returned clear show ?thesis by (simp add: IH scan_port_def)
  next
    case RaisedGaierror
    then have "\<not> opens tr host timeout p" by (simp add: opens_def)
    with RaisedGaierror clear show ?thesis by (simp add: IH scan_port_def)
  next
    case RaisedSocketError
    then have "\<not> opens tr host timeout p" by (simp add: opens_def)
    with RaisedSocketError clear show ?thesis by (simp add: IH scan_port_def)
  next
    case RaisedOther
    with Cons.prems show ?thesis by simp
  qed
qed


subsection \<open>The discovery scan: results\<close>

text \<open>The equations that evaluate a run of the machine on given events.\<close>

lemmas run_simps = scan_init_def max_threads_def probe_ports_def never_set_def ping_host_def
  list_ex_iff
  port_loop_Cons found_def opens_def

text \<open>
  C3. In host discovery the number of probe threads in flight (started and not yet
  returned) never exceeds the bound \<open>max_threads\<close> of the scan, in any state the scan can
  reach, whatever the scheduling, the network and the number of targets. Submission is
  throttled: while \<open>max_threads\<close> probes are in flight, a step of the scanning thread
  starts no thread and takes no address from the pending ones. (The port scanner probes
  one port at a time.)
\<close>

theorem C3_bounded_probes:
  "length (alive (scan_run tr timeout (scan_init hosts) es)) \<le> max_threads
   \<and> (length (alive (scan_run tr timeout (scan_init hosts) es)) = max_threads \<longrightarrow>
        alive (scan_step tr timeout (scan_run tr timeout (scan_init hosts) es) (Main stale))
          = alive (scan_run tr timeout (scan_init hosts) es)
        \<and> pending (scan_step tr timeout (scan_run tr timeout (scan_init hosts) es) (Main stale))
          = pending (scan_run tr timeout (scan_init hosts) es))"
proof -
  let ?s = "scan_run tr timeout (scan_init hosts) es"
  have "pool_ok ?s"
    by (rule pool_ok_run [OF pool_ok_init])
  then have sub: "subseq (alive ?s) (threads ?s)" and len: "length (threads ?s) \<le> max_threads"
    by (simp_all add: pool_ok_def)
  from sub have le: "length (alive ?s) \<le> length (threads ?s)"
    by (rule list_emb_length)
  with len have bound: "length (alive ?s) \<le> max_threads"
    by simp
  have block: "alive (scan_step tr timeout ?s (Main stale)) = alive ?s
        \<and> pending (scan_step tr timeout ?s (Main stale)) = pending ?s"
    if "length (alive ?s) = max_threads"
  proof -
    from that le have "max_threads \<le> length (threads ?s)" by simp
    then show ?thesis
      by (auto split: pc.splits list.splits)
  qed
  from bound block show ?thesis by blast
qed

theorem C3_bounded_probes_witness:
  "length (alive (scan_run all_open 1 (scan_init (map host_ip [1..<51] @ [host_ip 51]))
       (concat (replicate 50 [Main [], Main []]) @ [Main []]))) = max_threads
   \<and> pending (scan_run all_open 1 (scan_init (map host_ip [1..<51] @ [host_ip 51]))
       (concat (replicate 50 [Main [], Main []]) @ [Main []])) = [host_ip 51]
   \<and> alive (scan_step all_open 1
         (scan_run all_open 1 (scan_init (map host_ip [1..<51] @ [host_ip 51]))
           (concat (replicate 50 [Main [], Main []]) @ [Main []])) (Main []))
     = alive (scan_run all_open 1 (scan_init (map host_ip [1..<51] @ [host_ip 51]))
         (concat (replicate 50 [Main [], Main []]) @ [Main []]))
   \<and> pending (scan_step all_open 1
         (scan_run all_open 1 (scan_init (map host_ip [1..<51] @ [host_ip 51]))
           (concat (replicate 50 [Main [], Main []]) @ [Main []])) (Main []))
     = [host_ip 51]"
proof -
  let ?start = "scan_init (map host_ip [1..<51] @ [host_ip 51])"
  let ?mid = "scan_run all_open 1 ?start (concat (replicate 50 [Main [], Main []]))"
  let ?full = "scan_run all_open 1 ?start (concat (replicate 50 [Main [], Main []]) @ [Main []])"
  have "pc ?start = LoopHead" "\<not> stop_flag ?start"
    "pending ?start = map host_ip [1..<51] @ [host_ip 51]"
    "length (threads ?start) + length (map host_ip [1..<51]) \<le> max_threads"
    by (simp_all add: scan_init_def max_threads_def)
  from spawn_many [OF this, of all_open 1 "[]"]
  have mid: "pc ?mid = LoopHead" "\<not> stop_flag ?mid" "pending ?mid = [host_ip 51]"
    "length (alive ?mid) = 50"
    by (simp_all add: scan_init_def)
  have run: "?full = scan_step all_open 1 ?mid (Main [])"
    by (simp add: scan_run_append)
  from mid have full: "length (alive ?full) = max_threads"
    and pend: "pending ?full = [host_ip 51]"
    unfolding run by (simp_all add: max_threads_def)
  note blocked = C3_bounded_probes [of all_open 1 "map host_ip [1..<51] @ [host_ip 51]"
      "concat (replicate 50 [Main [], Main []]) @ [Main []]" "[]",
      THEN conjunct2, rule_format, OF full]
  from blocked pend
  have p2: "pending (scan_step all_open 1 ?full (Main [])) = [host_ip 51]"
    by simp
  show ?thesis
    using full pend blocked [THEN conjunct1] p2
    by (intro conjI) assumption+
qed

text \<open>
  C1, as the claim states it, fails: a target that turns out unreachable leaves no entry.
  A discovery run over one address that refuses every connection and answers no ping ends,
  uncancelled, with an empty result list; a port scan of one closed port collects nothing.
\<close>

theorem C1_counterexample:
  "pc (scan_run refusing 1 (scan_init [''10.0.0.9''])
       [Main [], Main [], Exit 0 never_set, Main [], Main [], Main []]) = Finished
   \<and> \<not> stop_flag (scan_run refusing 1 (scan_init [''10.0.0.9''])
       [Main [], Main [], Exit 0 never_set, Main [], Main [], Main []])
   \<and> hosts_found (scan_run refusing 1 (scan_init [''10.0.0.9''])
       [Main [], Main [], Exit 0 never_set, Main [], Main [], Main []]) = []
   \<and> scan_thread refusing never_set ''localhost'' (ListPorts [9999]) (1 / 2) = ([], Completed)"
  by (simp add: run_simps refusing_def scan_thread_def scan_port_def)

text \<open>
  C1, amended. For every list of targets there is a run that ends without cancellation; and
  every run that ends with the stop flag never set has collected exactly one entry for each
  target found up (one of the probe ports connected, or the ping was answered) and none for
  the others: the result list has as many entries as there are targets up, at most as many
  as targets. Likewise a port scan that the stop flag and exceptions leave alone collects
  exactly the ports that connected.
\<close>

theorem C1_results_are_hosts_up:
  "(\<exists>es. Cancel \<notin> set es
       \<and> pc (scan_run tr timeout (scan_init hosts) es) = Finished
       \<and> \<not> stop_flag (scan_run tr timeout (scan_init hosts) es))
   \<and> (\<forall>es. pc (scan_run tr timeout (scan_init hosts) es) = Finished
         \<and> \<not> stop_flag (scan_run tr timeout (scan_init hosts) es) \<longrightarrow>
       mset (hosts_found (scan_run tr timeout (scan_init hosts) es))
         = mset (expected tr timeout hosts)
       \<and> length (hosts_found (scan_run tr timeout (scan_init hosts) es))
         = length (filter (host_up tr timeout) hosts)
       \<and> length (hosts_found (scan_run tr timeout (scan_init hosts) es)) \<le> length hosts)
   \<and> ((\<forall>i. \<not> is_set i)
        \<and> (\<forall>p \<in> set (elems ports). connect_ex tr host p timeout \<noteq> SetupRaised
              \<and> connect_ex tr host p timeout \<noteq> RaisedOther) \<longrightarrow>
       scan_thread tr is_set host ports timeout
         = (filter (opens tr host timeout) (elems ports), Completed))"
proof -
  have a: "\<exists>es. Cancel \<notin> set es
       \<and> pc (scan_run tr timeout (scan_init hosts) es) = Finished
       \<and> \<not> stop_flag (scan_run tr timeout (scan_init hosts) es)"
    by (rule scan_can_finish)
  have b: "\<forall>es. pc (scan_run tr timeout (scan_init hosts) es) = Finished
         \<and> \<not> stop_flag (scan_run tr timeout (scan_init hosts) es) \<longrightarrow>
       mset (hosts_found (scan_run tr timeout (scan_init hosts) es))
         = mset (expected tr timeout hosts)
       \<and> length (hosts_found (scan_run tr timeout (scan_init hosts) es))
         = length (filter (host_up tr timeout) hosts)
       \<and> length (hosts_found (scan_run tr timeout (scan_init hosts) es)) \<le> length hosts"
  proof (intro allI impI)
    fix es
    assume fin: "pc (scan_run tr timeout (scan_init hosts) es) = Finished
         \<and> \<not> stop_flag (scan_run tr timeout (scan_init hosts) es)"
    then have m: "mset (hosts_found (scan_run tr timeout (scan_init hosts) es))
         = mset (expected tr timeout hosts)"
      by (simp add: finished_results)
    then have "length (hosts_found (scan_run tr timeout (scan_init hosts) es))
         = length (expected tr timeout hosts)"
      by (rule mset_eq_length)
    then have l: "length (hosts_found (scan_run tr timeout (scan_init hosts) es))
         = length (filter (host_up tr timeout) hosts)"
      by (simp add: expected_def)
    have "length (filter (host_up tr timeout) hosts) \<le> length hosts"
      by (rule length_filter_le)
    with m l show "mset (hosts_found (scan_run tr timeout (scan_init hosts) es))
         = mset (expected tr timeout hosts)
       \<and> length (hosts_found (scan_run tr timeout (scan_init hosts) es))
         = length (filter (host_up tr timeout) hosts)
       \<and> length (hosts_found (scan_run tr timeout (scan_init hosts) es)) \<le> length hosts"
      by simp
  qed
  have c: "(\<forall>i. \<not> is_set i)
        \<and> (\<forall>p \<in> set (elems ports). connect_ex tr host p timeout \<noteq> SetupRaised
              \<and> connect_ex tr host p timeout \<noteq> RaisedOther) \<longrightarrow>
       scan_thread tr is_set host ports timeout
         = (filter (opens tr host timeout) (elems ports), Completed)"
    using scan_loop_clear [of is_set "elems ports" tr host timeout 0 "[]"]
    by (simp add: scan_thread_def)
  from a b c show ?thesis by blast
qed


theorem C1_results_are_hosts_up_witness:
  "pc (scan_run smb_only 1 (scan_init [''10.0.0.1'', ''10.0.0.2''])
       [Main [], Main [], Main [], Main [], Exit 1 never_set, Exit 0 never_set,
        Main [], Main [], Main [], Main []]) = Finished
   \<and> \<not> stop_flag (scan_run smb_only 1 (scan_init [''10.0.0.1'', ''10.0.0.2''])
       [Main [], Main [], Main [], Main [], Exit 1 never_set, Exit 0 never_set,
        Main [], Main [], Main [], Main []])
   \<and> hosts_found (scan_run smb_only 1 (scan_init [''10.0.0.1'', ''10.0.0.2''])
       [Main [], Main [], Main [], Main [], Exit 1 never_set, Exit 0 never_set,
        Main [], Main [], Main [], Main []]) = [(''10.0.0.2'', None), (''10.0.0.1'', None)]
   \<and> mset (hosts_found (scan_run smb_only 1 (scan_init [''10.0.0.1'', ''10.0.0.2''])
       [Main [], Main [], Main [], Main [], Exit 1 never_set, Exit 0 never_set,
        Main [], Main [], Main [], Main []]))
       = mset (expected smb_only 1 [''10.0.0.1'', ''10.0.0.2''])
   \<and> (\<forall>i. \<not> never_set i)
   \<and> elems (RangePorts 443 447) = [443, 444, 445, 446]
   \<and> connect_ex smb_only ''10.0.0.1'' 443 1 = Returned 10061
   \<and> connect_ex smb_only ''10.0.0.1'' 444 1 = Returned 10061
   \<and> connect_ex smb_only ''10.0.0.1'' 445 1 = Returned 0
   \<and> connect_ex smb_only ''10.0.0.1'' 446 1 = Returned 10061
   \<and> scan_thread smb_only never_set ''10.0.0.1'' (RangePorts 443 447) 1
       = (filter (opens smb_only ''10.0.0.1'' 1) (elems (RangePorts 443 447)), Completed)
   \<and> filter (opens smb_only ''10.0.0.1'' 1) (elems (RangePorts 443 447)) = [445]"
proof -
  let ?s = "scan_run smb_only 1 (scan_init [''10.0.0.1'', ''10.0.0.2''])
       [Main [], Main [], Main [], Main [], Exit 1 never_set, Exit 0 never_set,
        Main [], Main [], Main [], Main []]"
  have fin: "pc ?s = Finished \<and> \<not> stop_flag ?s"
    by (simp add: run_simps smb_only_def)
  have found: "hosts_found ?s = [(''10.0.0.2'', None), (''10.0.0.1'', None)]"
    by (simp add: run_simps smb_only_def)
  have clear: "(\<forall>i. \<not> never_set i)
     \<and> (\<forall>p \<in> set (elems (RangePorts 443 447)).
         connect_ex smb_only ''10.0.0.1'' p 1 \<noteq> SetupRaised
         \<and> connect_ex smb_only ''10.0.0.1'' p 1 \<noteq> RaisedOther)"
    by (simp add: never_set_def smb_only_def)
  note inst = C1_results_are_hosts_up [of smb_only 1 "[''10.0.0.1'', ''10.0.0.2'']" never_set
      "RangePorts 443 447" "''10.0.0.1''"]
  note m = inst [THEN conjunct2, THEN conjunct1, rule_format, OF fin, THEN conjunct1]
  note t = inst [THEN conjunct2, THEN conjunct2, rule_format, OF clear]
  have e: "elems (RangePorts 443 447) = [443, 444, 445, 446]"
    by (simp add: upto_rec_numeral)
  have c1: "connect_ex smb_only ''10.0.0.1'' 443 1 = Returned 10061"
    and c2: "connect_ex smb_only ''10.0.0.1'' 444 1 = Returned 10061"
    and c3: "connect_ex smb_only ''10.0.0.1'' 445 1 = Returned 0"
    and c4: "connect_ex smb_only ''10.0.0.1'' 446 1 = Returned 10061"
    by (simp_all add: smb_only_def)
  have f: "filter (opens smb_only ''10.0.0.1'' 1) (elems (RangePorts 443 447)) = [445]"
    unfolding e by (simp add: opens_def smb_only_def)
  show ?thesis
    using fin [THEN conjunct1] fin [THEN conjunct2] found m
      clear [THEN conjunct1] e c1 c2 c3 c4 t f
    by (intro conjI) assumption+
qed

text \<open>
  C6, as the claim states it, fails in one point: a probe that runs to completion publishes
  no result when it finds the host down. Here all four ports refuse and the ping is not
  answered.
\<close>

theorem C6_counterexample:
  "trace (ping_host refusing never_set ''10.0.0.9'' 1 [])
     = [TryPort ''10.0.0.9'' 80 1, TryPort ''10.0.0.9'' 443 1, TryPort ''10.0.0.9'' 22 1,
        TryPort ''10.0.0.9'' 445 1, IcmpPing ''10.0.0.9'' 1]
   \<and> results (ping_host refusing never_set ''10.0.0.9'' 1 []) = []"
  by (simp add: ping_host_def probe_ports_def port_loop_Cons found_def refusing_def
      never_set_def opens_def)

text \<open>
  C6, amended. One call of \<open>_ping_host\<close> appends at most one entry, for its own address;
  with the stop flag clear it appends exactly one when the host is up and none when it is
  down. In every state a scan can reach, cancelled or not, the addresses with an entry,
  those being probed and those not yet scheduled are, counted with repetitions, among the
  submitted ones: no address has more entries than it was submitted times, and an address
  still pending when the loop is left has none.
\<close>

theorem C6_at_most_one_result:
  "(results (ping_host tr is_set ip timeout rs) = rs
      \<or> results (ping_host tr is_set ip timeout rs) = rs @ [(ip, gethostbyaddr tr ip)])
   \<and> ((\<forall>i < length probe_ports. \<not> is_set i) \<longrightarrow>
        results (ping_host tr is_set ip timeout rs)
          = rs @ (if host_up tr timeout ip then [(ip, gethostbyaddr tr ip)] else []))
   \<and> mset (map fst (hosts_found (scan_run tr timeout (scan_init hosts) es)))
       + mset (map snd (alive (scan_run tr timeout (scan_init hosts) es)))
       + mset (pending (scan_run tr timeout (scan_init hosts) es)) \<subseteq># mset hosts
   \<and> (\<forall>a. count_list (map fst (hosts_found (scan_run tr timeout (scan_init hosts) es))) a
           \<le> count_list hosts a)"
proof -
  let ?s = "scan_run tr timeout (scan_init hosts) es"
  have "accounted hosts ?s"
    by (rule accounted_run [OF accounted_init])
  then have sub: "mset (map fst (hosts_found ?s)) + mset (map snd (alive ?s)) + mset (pending ?s)
      \<subseteq># mset hosts"
    by (simp add: accounted_def)
  have "mset (map fst (hosts_found ?s))
      \<subseteq># mset (map fst (hosts_found ?s)) + mset (map snd (alive ?s)) + mset (pending ?s)"
    by (simp add: add.assoc)
  then have "mset (map fst (hosts_found ?s)) \<subseteq># mset hosts"
    using sub by (rule subset_mset.order_trans)
  then have "count (mset (map fst (hosts_found ?s))) a \<le> count (mset hosts) a" for a
    by (rule mset_subset_eq_count)
  then have cnt: "\<forall>a. count_list (map fst (hosts_found ?s)) a \<le> count_list hosts a"
    unfolding count_mset by blast
  have clear: "(\<forall>i < length probe_ports. \<not> is_set i) \<longrightarrow>
        results (ping_host tr is_set ip timeout rs)
          = rs @ (if host_up tr timeout ip then [(ip, gethostbyaddr tr ip)] else [])"
  proof
    assume "\<forall>i < length probe_ports. \<not> is_set i"
    then have "\<not> list_ex is_set [0..<length probe_ports]"
      by (simp add: list_ex_iff)
    then have "results (ping_host tr is_set ip timeout rs) = rs @ expected tr timeout [ip]"
      by (rule ping_host_clear)
    then show "results (ping_host tr is_set ip timeout rs)
          = rs @ (if host_up tr timeout ip then [(ip, gethostbyaddr tr ip)] else [])"
      by (simp add: expected_def)
  qed
  from ping_host_results [of tr is_set ip timeout rs] clear sub cnt show ?thesis by blast
qed

theorem C6_at_most_one_result_witness:
  "hosts_found (scan_run all_open 1 (scan_init [''10.0.0.1'', ''10.0.0.1'', ''10.0.0.2''])
       [Main [], Main [], Main [], Main [], Cancel, Main [], Exit 1 never_set,
        Exit 0 never_set, Main [], Main [], Main []])
     = [(''10.0.0.1'', Some ''gateway.lan''), (''10.0.0.1'', Some ''gateway.lan'')]
   \<and> pending (scan_run all_open 1 (scan_init [''10.0.0.1'', ''10.0.0.1'', ''10.0.0.2''])
       [Main [], Main [], Main [], Main [], Cancel, Main [], Exit 1 never_set,
        Exit 0 never_set, Main [], Main [], Main []]) = [''10.0.0.2'']
   \<and> pc (scan_run all_open 1 (scan_init [''10.0.0.1'', ''10.0.0.1'', ''10.0.0.2''])
       [Main [], Main [], Main [], Main [], Cancel, Main [], Exit 1 never_set,
        Exit 0 never_set, Main [], Main [], Main []]) = Finished
   \<and> (\<forall>a. count_list (map fst (hosts_found
         (scan_run all_open 1 (scan_init [''10.0.0.1'', ''10.0.0.1'', ''10.0.0.2''])
       [Main [], Main [], Main [], Main [], Cancel, Main [], Exit 1 never_set,
        Exit 0 never_set, Main [], Main [], Main []]))) a
       \<le> count_list [''10.0.0.1'', ''10.0.0.1'', ''10.0.0.2''] a)
   \<and> host_up all_open 1 ''10.0.0.1''
   \<and> results (ping_host all_open never_set ''10.0.0.1'' 1 [])
       = [(''10.0.0.1'', Some ''gateway.lan'')]"
proof -
  let ?s = "scan_run all_open 1 (scan_init [''10.0.0.1'', ''10.0.0.1'', ''10.0.0.2''])
       [Main [], Main [], Main [], Main [], Cancel, Main [], Exit 1 never_set,
        Exit 0 never_set, Main [], Main [], Main []]"
  have h: "hosts_found ?s
     = [(''10.0.0.1'', Some ''gateway.lan''), (''10.0.0.1'', Some ''gateway.lan'')]"
    and p: "pending ?s = [''10.0.0.2'']" and f: "pc ?s = Finished"
    by (simp_all add: run_simps all_open_def)
  have clear: "\<forall>i < length probe_ports. \<not> never_set i"
    by (simp add: never_set_def)
  have up: "host_up all_open 1 ''10.0.0.1''"
    by (simp add: host_up_def probe_ports_def opens_def all_open_def)
  note inst = C6_at_most_one_result [of all_open never_set "''10.0.0.1''" 1 "[]"
      "[''10.0.0.1'', ''10.0.0.1'', ''10.0.0.2'']"
      "[Main [], Main [], Main [], Main [], Cancel, Main [], Exit 1 never_set,
        Exit 0 never_set, Main [], Main [], Main []]"]
  note cnt = inst [THEN conjunct2, THEN conjunct2, THEN conjunct2]
  from inst [THEN conjunct2, THEN conjunct1, THEN mp, OF clear] up
  have r: "results (ping_host all_open never_set ''10.0.0.1'' 1 [])
       = [(''10.0.0.1'', Some ''gateway.lan'')]"
    by (simp add: all_open_def)
  show ?thesis
    using h p f cnt up r by (intro conjI) assumption+
qed

lemma always_up:
  assumes "\<forall>host port t. connect_ex tr host port t = Returned 0"
  shows "map fst (expected tr timeout hosts) = hosts"
proof -
  from assms have "\<And>ip. host_up tr timeout ip"
    by (auto simp: host_up_def probe_ports_def opens_def)
  then have "filter (host_up tr timeout) hosts = hosts"
    by simp
  then show ?thesis
    by (simp add: expected_def comp_def)
qed

text \<open>
  C9. Two uncancelled runs of the same batch, each against a network on which every
  connection attempt succeeds, report the same hosts, whatever the order in which the
  probe threads finish and whatever the reverse lookups and pings give; per port,
  \<open>scan_port_multi\<close> gives the same answer, and so does a whole port scan.
\<close>

theorem C9_same_reachability:
  assumes "\<forall>host port t. connect_ex tr1 host port t = Returned 0"
    and "\<forall>host port t. connect_ex tr2 host port t = Returned 0"
    and "pc (scan_run tr1 timeout (scan_init hosts) es1) = Finished"
    and "\<not> stop_flag (scan_run tr1 timeout (scan_init hosts) es1)"
    and "pc (scan_run tr2 timeout (scan_init hosts) es2) = Finished"
    and "\<not> stop_flag (scan_run tr2 timeout (scan_init hosts) es2)"
    and "\<forall>i. \<not> is_set1 i" and "\<forall>i. \<not> is_set2 i"
  shows "mset (map fst (hosts_found (scan_run tr1 timeout (scan_init hosts) es1)))
       = mset (map fst (hosts_found (scan_run tr2 timeout (scan_init hosts) es2)))
    \<and> mset (map fst (hosts_found (scan_run tr1 timeout (scan_init hosts) es1))) = mset hosts
    \<and> scan_port_multi tr1 host port timeout = scan_port_multi tr2 host port timeout
    \<and> scan_port_multi tr1 host port timeout = Inr (port, True)
    \<and> scan_thread tr1 is_set1 host ports timeout = scan_thread tr2 is_set2 host ports timeout
    \<and> scan_thread tr1 is_set1 host ports timeout = (elems ports, Completed)"
proof -
  have found: "mset (map fst (hosts_found (scan_run tr timeout (scan_init hosts) es))) = mset hosts"
    if "\<forall>host port t. connect_ex tr host port t = Returned 0"
      and "pc (scan_run tr timeout (scan_init hosts) es) = Finished"
      and "\<not> stop_flag (scan_run tr timeout (scan_init hosts) es)"
    for tr es
  proof -
    from that(2,3) have "mset (hosts_found (scan_run tr timeout (scan_init hosts) es))
        = mset (expected tr timeout hosts)"
      by (rule finished_results)
    then have "image_mset fst (mset (hosts_found (scan_run tr timeout (scan_init hosts) es)))
        = image_mset fst (mset (expected tr timeout hosts))"
      by simp
    then have "mset (map fst (hosts_found (scan_run tr timeout (scan_init hosts) es)))
        = mset (map fst (expected tr timeout hosts))"
      by simp
    with always_up [OF that(1)] show ?thesis by simp
  qed
  have multi: "scan_port_multi tr host port timeout = Inr (port, True)"
    if "\<forall>host port t. connect_ex tr host port t = Returned 0" for tr
    using that by (simp add: scan_port_multi_def)
  have thread: "scan_thread tr is_set host ports timeout = (elems ports, Completed)"
    if "\<forall>host port t. connect_ex tr host port t = Returned 0" and "\<forall>i. \<not> is_set i"
    for tr is_set
  proof -
    from that(1) have "\<forall>p \<in> set (elems ports). connect_ex tr host p timeout \<noteq> SetupRaised
        \<and> connect_ex tr host p timeout \<noteq> RaisedOther"
      by simp
    from scan_loop_clear [OF that(2) this, of 0 "[]"]
    have "scan_thread tr is_set host ports timeout
        = (filter (opens tr host timeout) (elems ports), Completed)"
      by (simp add: scan_thread_def)
    moreover from that(1) have "filter (opens tr host timeout) (elems ports) = elems ports"
      by (simp add: opens_def)
    ultimately show ?thesis by simp
  qed
  from found [OF assms(1,3,4)] found [OF assms(2,5,6)] multi [OF assms(1)] multi [OF assms(2)]
    thread [OF assms(1,7)] thread [OF assms(2,8)]
  show ?thesis by simp
qed

theorem C9_same_reachability_witness:
  "(\<forall>host port t. connect_ex all_open host port t = Returned 0)
   \<and> (\<forall>host port t. connect_ex all_open_unnamed host port t = Returned 0)
   \<and> pc (scan_run all_open 1 (scan_init [''10.0.0.1'', ''10.0.0.2''])
       [Main [], Main [], Main [], Main [], Exit 0 never_set, Exit 1 never_set,
        Main [], Main [], Main [], Main []]) = Finished
   \<and> pc (scan_run all_open_unnamed 1 (scan_init [''10.0.0.1'', ''10.0.0.2''])
       [Main [], Main [], Main [], Main [], Exit 1 never_set, Exit 0 never_set,
        Main [], Main [], Main [], Main []]) = Finished
   \<and> hosts_found (scan_run all_open 1 (scan_init [''10.0.0.1'', ''10.0.0.2''])
       [Main [], Main [], Main [], Main [], Exit 0 never_set, Exit 1 never_set,
        Main [], Main [], Main [], Main []])
       = [(''10.0.0.1'', Some ''gateway.lan''), (''10.0.0.2'', Some ''gateway.lan'')]
   \<and> hosts_found (scan_run all_open_unnamed 1 (scan_init [''10.0.0.1'', ''10.0.0.2''])
       [Main [], Main [], Main [], Main [], Exit 1 never_set, Exit 0 never_set,
        Main [], Main [], Main [], Main []])
       = [(''10.0.0.2'', None), (''10.0.0.1'', None)]
   \<and> mset (map fst (hosts_found (scan_run all_open 1 (scan_init [''10.0.0.1'', ''10.0.0.2''])
       [Main [], Main [], Main [], Main [], Exit 0 never_set, Exit 1 never_set,
        Main [], Main [], Main [], Main []])))
       = mset (map fst (hosts_found
           (scan_run all_open_unnamed 1 (scan_init [''10.0.0.1'', ''10.0.0.2''])
       [Main [], Main [], Main [], Main [], Exit 1 never_set, Exit 0 never_set,
        Main [], Main [], Main [], Main []])))"
proof -
  let ?s1 = "scan_run all_open 1 (scan_init [''10.0.0.1'', ''10.0.0.2''])
       [Main [], Main [], Main [], Main [], Exit 0 never_set, Exit 1 never_set,
        Main [], Main [], Main [], Main []]"
  let ?s2 = "scan_run all_open_unnamed 1 (scan_init [''10.0.0.1'', ''10.0.0.2''])
       [Main [], Main [], Main [], Main [], Exit 1 never_set, Exit 0 never_set,
        Main [], Main [], Main [], Main []]"
  have o1: "\<forall>host port t. connect_ex all_open host port t = Returned 0"
    by (simp add: all_open_def)
  have o2: "\<forall>host port t. connect_ex all_open_unnamed host port t = Returned 0"
    by (simp add: all_open_unnamed_def)
  have f1: "pc ?s1 = Finished" and n1: "\<not> stop_flag ?s1"
    and h1: "hosts_found ?s1
       = [(''10.0.0.1'', Some ''gateway.lan''), (''10.0.0.2'', Some ''gateway.lan'')]"
    by (simp_all add: run_simps all_open_def)
  have f2: "pc ?s2 = Finished" and n2: "\<not> stop_flag ?s2"
    and h2: "hosts_found ?s2 = [(''10.0.0.2'', None), (''10.0.0.1'', None)]"
    by (simp_all add: run_simps all_open_unnamed_def)
  have c: "\<forall>i. \<not> never_set i" by (simp add: never_set_def)
  note eq = C9_same_reachability [OF o1 o2 f1 n1 f2 n2 c c, THEN conjunct1]
  show ?thesis
    using o1 o2 f1 f2 h1 h2 eq
    by (intro conjI) assumption+
qed


subsection \<open>Starting a scan\<close>

lemma output_widget_run_in_thread:
  "output_widget (snd (run_in_thread target s)) = output_widget s"
  by (simp add: run_in_thread_def)

lemma thread_objs_append_output: "thread_objs (append_output text tg s) = thread_objs s"
  by (simp add: append_output_def split: option.splits)

lemma thread_objs_clear_output: "thread_objs (clear_output s) = thread_objs s"
  by (simp add: clear_output_def split: option.splits)

lemma thread_objs_print_header: "thread_objs (print_header title s) = thread_objs s"
  by (simp add: print_header_def thread_objs_append_output)

lemma is_running_append_output: "is_running (append_output text tg s) = is_running s"
  by (simp add: append_output_def is_running_def is_alive_def split: option.splits)

lemma is_running_clear_output: "is_running (clear_output s) = is_running s"
  by (simp add: clear_output_def is_running_def is_alive_def split: option.splits)

lemma is_running_print_header: "is_running (print_header title s) = is_running s"
  by (simp add: print_header_def is_running_append_output)

lemma thread_objs_started:
  "\<not> is_running s \<Longrightarrow>
     thread_objs (snd (run_in_thread target s)) = thread_objs s @ [(target, True)]"
  by (simp add: run_in_thread_def is_running_def)

lemma no_errors_clear: "no_errors (clear_output s)"
  by (simp add: no_errors_def clear_output_def split: option.splits)

lemma no_errors_append:
  "no_errors s \<Longrightarrow> tg \<noteq> ERROR \<Longrightarrow> no_errors (append_output text tg s)"
  by (auto simp: no_errors_def append_output_def split: option.splits)

lemma no_errors_header: "no_errors s \<Longrightarrow> no_errors (print_header title s)"
  by (simp add: print_header_def no_errors_append)

lemma no_errors_started: "no_errors s \<Longrightarrow> no_errors (snd (run_in_thread target s))"
  by (simp add: no_errors_def output_widget_run_in_thread)

lemma not_running_fresh: "\<not> is_running (create_output_area init_tool)"
  by (simp add: is_running_def create_output_area_def init_tool_def)

lemma thread_objs_fresh: "thread_objs (create_output_area init_tool) = []"
  by (simp add: create_output_area_def init_tool_def)

lemma alive_le_hosts: "length (alive (scan_run tr timeout (scan_init hosts) es)) \<le> length hosts"
proof -
  let ?s = "scan_run tr timeout (scan_init hosts) es"
  have "accounted hosts ?s"
    by (rule accounted_run [OF accounted_init])
  then have "mset (map fst (hosts_found ?s)) + mset (map snd (alive ?s)) + mset (pending ?s)
      \<subseteq># mset hosts"
    by (simp add: accounted_def)
  then have "size (mset (map fst (hosts_found ?s)) + mset (map snd (alive ?s)) + mset (pending ?s))
      \<le> size (mset hosts)"
    by (rule size_mset_mono)
  then show ?thesis by simp
qed

lemma alive_le_max: "length (alive (scan_run tr timeout (scan_init hosts) es)) \<le> max_threads"
proof -
  have "pool_ok (scan_run tr timeout (scan_init hosts) es)"
    by (rule pool_ok_run [OF pool_ok_init])
  then have "subseq (alive (scan_run tr timeout (scan_init hosts) es))
      (threads (scan_run tr timeout (scan_init hosts) es))"
    and "length (threads (scan_run tr timeout (scan_init hosts) es)) \<le> max_threads"
    by (simp_all add: pool_ok_def)
  then show ?thesis
    by (meson list_emb_length order_trans)
qed

text \<open>
  C4, as the claim states it, fails. In host discovery a timeout field that does not parse
  starts the scan with the default of one second and writes no error line; a negative
  timeout and a zero timeout are accepted and passed on as they are.
\<close>

theorem C4_counterexample:
  "thread_objs (discovery_run_tool ''192.168.1.0/24'' (Inl ''unused'') ValueError
       (create_output_area init_tool))
     = [(ScanNetwork ''192.168.1.0/24'' 1, True)]
   \<and> no_errors (discovery_run_tool ''192.168.1.0/24'' (Inl ''unused'') ValueError
       (create_output_area init_tool))
   \<and> thread_objs (discovery_run_tool ''192.168.1.0/24'' (Inl ''unused'') (Parsed (- 5))
       (create_output_area init_tool))
     = [(ScanNetwork ''192.168.1.0/24'' (- 5), True)]
   \<and> no_errors (discovery_run_tool ''192.168.1.0/24'' (Inl ''unused'') (Parsed (- 5))
       (create_output_area init_tool))
   \<and> thread_objs (discovery_run_tool ''192.168.1.0/24'' (Inl ''unused'') (Parsed 0)
       (create_output_area init_tool))
     = [(ScanNetwork ''192.168.1.0/24'' 0, True)]"
  by (simp add: discovery_run_tool_def
      thread_objs_started is_running_append_output is_running_clear_output
      is_running_print_header thread_objs_append_output thread_objs_clear_output
      thread_objs_print_header no_errors_started no_errors_append no_errors_header
      no_errors_clear not_running_fresh thread_objs_fresh)

text \<open>
  C4, amended. The timeout is not validated. In host discovery, once the network range is
  accepted and no worker is running, the scan is started with the parsed timeout, whatever
  its sign, or with the default 1 when the field does not parse, and no error line is
  written. The port scanner converts its timeout in the same way but, as written, once host
  and ports are accepted its \<open>run_tool\<close> ends with an exception: it starts nothing, and
  writes no error line either. There is no
  concurrency setting to validate; the number of probes in flight is never more than the
  number of targets (nor more than \<open>max_threads\<close>), and for a non-empty target list the
  first two steps of the scanning thread put one probe in flight.
\<close>

theorem C4_timeout_not_validated:
  "(range_var \<noteq> [] \<and> range_var \<noteq> ''auto'' \<and> \<not> is_running s \<longrightarrow>
      thread_objs (discovery_run_tool range_var detect timeout_var s)
        = thread_objs s
          @ [(ScanNetwork range_var (case timeout_var of ValueError \<Rightarrow> 1 | Parsed t \<Rightarrow> t), True)]
      \<and> no_errors (discovery_run_tool range_var detect timeout_var s))
   \<and> (host \<noteq> [] \<and> select_ports scan_type port_from_var port_to_var = Inr ports \<longrightarrow>
      port_scanner_run_tool_raises host scan_type port_from_var port_to_var
      \<and> thread_objs (port_scanner_run_tool host scan_type port_from_var port_to_var timeout_var s)
        = thread_objs s
      \<and> no_errors (port_scanner_run_tool host scan_type port_from_var port_to_var timeout_var s))
   \<and> length (alive (scan_run tr timeout (scan_init hosts) es)) \<le> min max_threads (length hosts)
   \<and> (hosts \<noteq> [] \<longrightarrow>
      length (alive (scan_run tr timeout (scan_init hosts) [Main stale, Main stale])) = 1)"
proof -
  have a: "range_var \<noteq> [] \<and> range_var \<noteq> ''auto'' \<and> \<not> is_running s \<longrightarrow>
      thread_objs (discovery_run_tool range_var detect timeout_var s)
        = thread_objs s
          @ [(ScanNetwork range_var (case timeout_var of ValueError \<Rightarrow> 1 | Parsed t \<Rightarrow> t), True)]
      \<and> no_errors (discovery_run_tool range_var detect timeout_var s)"
    by (simp add: discovery_run_tool_def
        thread_objs_started is_running_append_output is_running_clear_output
        is_running_print_header thread_objs_append_output thread_objs_clear_output
        thread_objs_print_header no_errors_started no_errors_append no_errors_header
        no_errors_clear)
  have b: "host \<noteq> [] \<and> select_ports scan_type port_from_var port_to_var = Inr ports \<longrightarrow>
      port_scanner_run_tool_raises host scan_type port_from_var port_to_var
      \<and> thread_objs (port_scanner_run_tool host scan_type port_from_var port_to_var timeout_var s)
        = thread_objs s
      \<and> no_errors (port_scanner_run_tool host scan_type port_from_var port_to_var timeout_var s)"
    by (simp add: port_scanner_run_tool_def port_scanner_run_tool_raises_def
        thread_objs_clear_output thread_objs_print_header no_errors_header no_errors_clear)
  have c: "length (alive (scan_run tr timeout (scan_init hosts) es))
      \<le> min max_threads (length hosts)"
    using alive_le_hosts [of tr timeout hosts es] alive_le_max [of tr timeout hosts es]
    by simp
  have d: "hosts \<noteq> [] \<longrightarrow>
      length (alive (scan_run tr timeout (scan_init hosts) [Main stale, Main stale])) = 1"
    by (cases hosts) (simp_all add: scan_init_def max_threads_def)
  from a b c d show ?thesis by blast
qed

theorem C4_timeout_not_validated_witness:
  "''10.0.0.0/30'' \<noteq> [] \<and> ''10.0.0.0/30'' \<noteq> ''auto''
   \<and> \<not> is_running (create_output_area init_tool)
   \<and> thread_objs (discovery_run_tool ''10.0.0.0/30'' (Inl ''unused'') ValueError
         (create_output_area init_tool))
       = [(ScanNetwork ''10.0.0.0/30'' 1, True)]
   \<and> no_errors (discovery_run_tool ''10.0.0.0/30'' (Inl ''unused'') ValueError
         (create_output_area init_tool))
   \<and> ''127.0.0.1'' \<noteq> []
   \<and> select_ports ''single'' (Parsed 8080) ValueError = Inr (ListPorts [8080])
   \<and> port_scanner_run_tool_raises ''127.0.0.1'' ''single'' (Parsed 8080) ValueError
   \<and> thread_objs (port_scanner_run_tool ''127.0.0.1'' ''single'' (Parsed 8080) ValueError
         ValueError (create_output_area init_tool)) = []
   \<and> no_errors (port_scanner_run_tool ''127.0.0.1'' ''single'' (Parsed 8080) ValueError
         ValueError (create_output_area init_tool))
   \<and> [''10.0.0.1'', ''10.0.0.2''] \<noteq> []
   \<and> length (alive (scan_run all_open 1 (scan_init [''10.0.0.1'', ''10.0.0.2''])
         [Main [], Main []])) = 1"
proof -
  have rng: "''10.0.0.0/30'' \<noteq> [] \<and> ''10.0.0.0/30'' \<noteq> ''auto''
      \<and> \<not> is_running (create_output_area init_tool)"
    by (simp add: not_running_fresh)
  have sel: "''127.0.0.1'' \<noteq> []
      \<and> select_ports ''single'' (Parsed 8080) ValueError = Inr (ListPorts [8080])"
    by (simp add: select_ports_def)
  have ne: "[''10.0.0.1'', ''10.0.0.2''] \<noteq> []"
    by simp
  note inst = C4_timeout_not_validated [of "''10.0.0.0/30''" "create_output_area init_tool"
      "Inl ''unused''" ValueError "''127.0.0.1''" "''single''" "Parsed 8080" ValueError
      "ListPorts [8080]" all_open 1 "[''10.0.0.1'', ''10.0.0.2'']" "[]" "[]"]
  note disc = inst [THEN conjunct1, THEN mp, OF rng]
  note scan = inst [THEN conjunct2, THEN conjunct1, THEN mp, OF sel]
  note one = inst [THEN conjunct2, THEN conjunct2, THEN conjunct2, THEN mp, OF ne]
  from disc have d1: "thread_objs (discovery_run_tool ''10.0.0.0/30'' (Inl ''unused'') ValueError
         (create_output_area init_tool)) = [(ScanNetwork ''10.0.0.0/30'' 1, True)]"
    by (simp add: thread_objs_fresh)
  from scan [THEN conjunct2, THEN conjunct1]
  have s1: "thread_objs (port_scanner_run_tool ''127.0.0.1'' ''single'' (Parsed 8080)
         ValueError ValueError (create_output_area init_tool)) = []"
    by (simp add: thread_objs_fresh)
  show ?thesis
    using rng [THEN conjunct1] rng [THEN conjunct2, THEN conjunct1]
      rng [THEN conjunct2, THEN conjunct2] d1 disc [THEN conjunct2]
      sel [THEN conjunct1] sel [THEN conjunct2] scan [THEN conjunct1] s1
      scan [THEN conjunct2, THEN conjunct2] ne one
    by (intro conjI) assumption+
qed

lemma select_ports_invalid:
  assumes "(scan_type = ''range'' \<and> port_from_var = Parsed a \<and> port_to_var = Parsed b
         \<and> (a < 1 \<or> 65535 < a \<or> b < 1 \<or> 65535 < b \<or> b < a))
       \<or> (scan_type \<noteq> ''common'' \<and> scan_type \<noteq> ''range'' \<and> port_from_var = Parsed a
         \<and> (a < 1 \<or> 65535 < a))"
  shows "select_ports scan_type port_from_var port_to_var
     = Inl (if scan_type = ''range'' then ''Invalid port range. Use 1-65535.''
            else ''Invalid port number. Use 1-65535.'')"
  using assms by (auto simp: select_ports_def)

text \<open>
  C7. When the port range has a bound outside 1 to 65535 or is inverted, or the single port
  is outside 1 to 65535, \<open>run_tool\<close> writes one error line and returns: the state is
  otherwise unchanged, no thread is started, so no probe is made. (With an empty host field
  the error line is the one about the host.)
\<close>

theorem C7_invalid_ports_rejected:
  assumes "output_widget s = Some out"
    and "(scan_type = ''range'' \<and> port_from_var = Parsed a \<and> port_to_var = Parsed b
         \<and> (a < 1 \<or> 65535 < a \<or> b < 1 \<or> 65535 < b \<or> b < a))
       \<or> (scan_type \<noteq> ''common'' \<and> scan_type \<noteq> ''range'' \<and> port_from_var = Parsed a
         \<and> (a < 1 \<or> 65535 < a))"
  shows "(\<exists>msg. port_scanner_run_tool host scan_type port_from_var port_to_var timeout_var s
            = s\<lparr>output_widget := Some (out @ [(msg, ERROR)])\<rparr>)
    \<and> thread_objs (port_scanner_run_tool host scan_type port_from_var port_to_var timeout_var s)
        = thread_objs s
    \<and> worker_thread (port_scanner_run_tool host scan_type port_from_var port_to_var timeout_var s)
        = worker_thread s
    \<and> (host \<noteq> [] \<longrightarrow>
         port_scanner_run_tool host scan_type port_from_var port_to_var timeout_var s
           = append_output (if scan_type = ''range'' then ''Invalid port range. Use 1-65535.''
                            else ''Invalid port number. Use 1-65535.'') ERROR s)"
proof -
  note sel = select_ports_invalid [OF assms(2)]
  show ?thesis
  proof (cases "host = []")
    case True
    with assms(1) show ?thesis
      by (auto simp: port_scanner_run_tool_def append_output_def)
  next
    case False
    with assms(1) sel show ?thesis
      by (auto simp: port_scanner_run_tool_def append_output_def)
  qed
qed

theorem C7_invalid_ports_rejected_witness:
  "output_widget (create_output_area init_tool) = Some []
   \<and> (2000::int) < 3000
   \<and> port_scanner_run_tool ''127.0.0.1'' ''range'' (Parsed 3000) (Parsed 2000) (Parsed 1)
       (create_output_area init_tool)
     = (create_output_area init_tool)
         \<lparr>output_widget := Some [(''Invalid port range. Use 1-65535.'' @ [CHR 0x0A], ERROR)]\<rparr>
   \<and> thread_objs (port_scanner_run_tool ''127.0.0.1'' ''range'' (Parsed 3000) (Parsed 2000)
       (Parsed 1) (create_output_area init_tool)) = []
   \<and> thread_objs (port_scanner_run_tool ''127.0.0.1'' ''single'' (Parsed 70000) (Parsed 1)
       (Parsed 1) (create_output_area init_tool)) = []"
proof -
  have w: "output_widget (create_output_area init_tool) = Some []"
    by (simp add: create_output_area_def)
  have inv1: "(''range'' = ''range'' \<and> Parsed 3000 = Parsed (3000::int)
         \<and> Parsed 2000 = Parsed (2000::int)
         \<and> ((3000::int) < 1 \<or> 65535 < (3000::int) \<or> (2000::int) < 1 \<or> 65535 < (2000::int)
             \<or> (2000::int) < 3000))
       \<or> (''range'' \<noteq> ''common'' \<and> ''range'' \<noteq> ''range'' \<and> Parsed 3000 = Parsed (3000::int)
         \<and> ((3000::int) < 1 \<or> 65535 < (3000::int)))"
    by simp
  have inv2: "(''single'' = ''range'' \<and> Parsed 70000 = Parsed (70000::int)
         \<and> Parsed 1 = Parsed (1::int)
         \<and> ((70000::int) < 1 \<or> 65535 < (70000::int) \<or> (1::int) < 1 \<or> 65535 < (1::int)
             \<or> (1::int) < 70000))
       \<or> (''single'' \<noteq> ''common'' \<and> ''single'' \<noteq> ''range'' \<and> Parsed 70000 = Parsed (70000::int)
         \<and> ((70000::int) < 1 \<or> 65535 < (70000::int)))"
    by simp
  from C7_invalid_ports_rejected [OF w inv1, of "''127.0.0.1''" "Parsed 1"]
    C7_invalid_ports_rejected [OF w inv2, of "''127.0.0.1''" "Parsed 1"] w
  show ?thesis
    by (simp add: append_output_def thread_objs_fresh)
qed


end
